theory Spec2Isabelle
  imports Complex_Main "HOL-Library.Sublist" "HOL-Library.AList"
begin

section \<open>Strings\<close>

text \<open>
  A Python \<open>str\<close> is modelled as a \<open>string\<close> holding its UTF-8 bytes. Substring tests and
  \<open>replace\<close> on UTF-8 bytes agree with the same operations on code points (UTF-8 is
  self-synchronising). Case folding and whitespace are those of the ASCII range: the
  model is exact for names whose characters beyond ASCII are caseless and are not white
  space.
\<close>

definition is_space :: "char \<Rightarrow> bool" where
  \<comment> \<open>\<open>str.isspace\<close> below U+0080: TAB, LF, VT, FF, CR, FS, GS, RS, US and the space.\<close>
  "is_space c = (c \<in> set [CHR 0x09, CHR 0x0A, CHR 0x0B, CHR 0x0C, CHR 0x0D,
                            CHR 0x1C, CHR 0x1D, CHR 0x1E, CHR 0x1F, CHR 0x20])"

definition lower_char :: "char \<Rightarrow> char" where
  "lower_char c =
     (case map_of (zip ''ABCDEFGHIJKLMNOPQRSTUVWXYZ'' ''abcdefghijklmnopqrstuvwxyz'') c of
        Some d \<Rightarrow> d
      | None \<Rightarrow> c)"

definition lower :: "string \<Rightarrow> string" where
  \<comment> \<open>\<open>s.lower()\<close>\<close>
  "lower s = map lower_char s"

definition strip :: "string \<Rightarrow> string" where
  \<comment> \<open>\<open>s.strip()\<close>\<close>
  "strip s = rev (dropWhile is_space (rev (dropWhile is_space s)))"

fun split_from :: "string \<Rightarrow> string \<Rightarrow> string list" where
  "split_from cur [] = (if cur = [] then [] else [cur])"
| "split_from cur (c # cs) =
     (if is_space c then (if cur = [] then split_from [] cs else cur # split_from [] cs)
      else split_from (cur @ [c]) cs)"

definition split :: "string \<Rightarrow> string list" where
  \<comment> \<open>\<open>s.split()\<close>: the maximal runs of characters that are not white space.\<close>
  "split s = split_from [] s"

definition split_first :: "char \<Rightarrow> string \<Rightarrow> string" where
  \<comment> \<open>\<open>s.split(c)[0]\<close>: the text before the first \<open>c\<close>, all of \<open>s\<close> when there is none.\<close>
  "split_first c s = takeWhile (\<lambda>x. x \<noteq> c) s"

function replace :: "string \<Rightarrow> string \<Rightarrow> string \<Rightarrow> string" where
  "replace old new [] = []"
| "replace old new (c # cs) =
     (if old \<noteq> [] \<and> prefix old (c # cs)
      then new @ replace old new (drop (length old) (c # cs))
      else c # replace old new cs)"
  by pat_completeness auto
termination
  by (relation "measure (\<lambda>(old, new, s). length s)") (auto simp: prefix_def)

text \<open>
  \<open>replace old new s\<close> is \<open>s.replace(old, new)\<close> for a non-empty \<open>old\<close>, which is every use
  in the source: the occurrences of \<open>old\<close> are taken from the left, without overlap.
\<close>

fun py_in :: "string \<Rightarrow> string \<Rightarrow> bool" where
  \<comment> \<open>\<open>a in b\<close> on strings\<close>
  "py_in a [] = (a = [])"
| "py_in a (c # cs) = (prefix a (c # cs) \<or> py_in a cs)"

definition len_set :: "string list \<Rightarrow> nat" where
  \<comment> \<open>\<open>len(set(xs))\<close>\<close>
  "len_set xs = length (remdups xs)"

definition common_words :: "string list \<Rightarrow> string list \<Rightarrow> string list" where
  \<comment> \<open>\<open>set(xs) & set(ys)\<close>, as a list without duplicates\<close>
  "common_words xs ys = filter (\<lambda>w. w \<in> set ys) (remdups xs)"

section \<open>JSON values\<close>

datatype jval =
    JNull
  | JBool bool
  | JNum rat
  | JStr string
  | JArr "jval list"
  | JObj "(string \<times> jval) list"

fun truthy :: "jval \<Rightarrow> bool" where
  "truthy JNull = False"
| "truthy (JBool b) = b"
| "truthy (JNum r) = (r \<noteq> 0)"
| "truthy (JStr s) = (s \<noteq> [])"
| "truthy (JArr xs) = (xs \<noteq> [])"
| "truthy (JObj kvs) = (kvs \<noteq> [])"

section \<open>Pricing loader and matcher\<close>

text \<open>
  An entry of the \<open>models\<close> list of pricing.json. \<open>pe_name\<close> is \<open>None\<close> when the entry has no
  \<open>name\<close> key; the other fields hold what \<open>model.get(key)\<close> returns, \<open>JNull\<close> for a missing
  key as for a null.
\<close>

record price_entry =
  pe_name :: "jval option"
  pe_price_usd :: jval
  pe_configuration :: jval
  pe_discount :: jval

record price_data =
  price_usd :: jval
  configuration :: jval
  discount :: jval

text \<open>The pricing dict, in insertion order: assigning to a key it has keeps the key's place.\<close>

type_synonym pricing = "(string \<times> price_data) list"

definition entry_key :: "price_entry \<Rightarrow> string option" where
  \<comment> \<open>\<open>model.get("name", "").lower().strip()\<close>; \<open>None\<close> when the name is not a string and
      \<open>.lower()\<close> raises\<close>
  "entry_key model =
     (case pe_name model of
        None \<Rightarrow> Some (strip (lower []))
      | Some (JStr s) \<Rightarrow> Some (strip (lower s))
      | Some _ \<Rightarrow> None)"

definition entry_data :: "price_entry \<Rightarrow> price_data" where
  "entry_data model =
     \<lparr>price_usd = pe_price_usd model,
      configuration = pe_configuration model,
      discount = pe_discount model\<rparr>"

fun load_models :: "price_entry list \<Rightarrow> pricing \<Rightarrow> pricing option" where
  "load_models [] pricing = Some pricing"
| "load_models (model # rest) pricing =
     (case entry_key model of
        None \<Rightarrow> None
      | Some name \<Rightarrow> load_models rest (AList.update name (entry_data model) pricing))"

definition load_pricing_data :: "price_entry list option \<Rightarrow> pricing option" where
  \<comment> \<open>The argument is the \<open>models\<close> list of pricing.json, \<open>None\<close> when the file does not exist.
      The result is \<open>None\<close> when loading raises.\<close>
  "load_pricing_data file =
     (case file of None \<Rightarrow> Some [] | Some models \<Rightarrow> load_models models [])"

definition middle_dots :: string where
  \<comment> \<open>the two characters U+00AC U+2211 of the source's literal, in UTF-8\<close>
  "middle_dots = [CHR 0xC2, CHR 0xAC, CHR 0xE2, CHR 0x88, CHR 0x91]"

definition variations :: "string \<Rightarrow> string list" where
  "variations name_lower =
     [replace '']'' '''' (replace ''['' '''' name_lower),
      strip (replace middle_dots '''' name_lower),
      replace ''-'' '' '' name_lower,
      strip (split_first CHR ''('' name_lower)]"

fun lookup_variants :: "pricing \<Rightarrow> string list \<Rightarrow> price_data option" where
  "lookup_variants pd [] = None"
| "lookup_variants pd (variant # rest) =
     (case map_of pd variant of
        Some price_data \<Rightarrow> Some price_data
      | None \<Rightarrow> lookup_variants pd rest)"

definition significant :: "string \<Rightarrow> string \<Rightarrow> bool" where
  \<comment> \<open>\<open>len(common_words) >= min(len(name_words), len(price_words)) * 0.6\<close>, with the
      product compared exactly, as \<open>3 * min \<le> 5 * common\<close>. For word counts below
      \<open>2 ^ 50\<close> the comparison with the double product gives the same: where \<open>0.6 * min\<close>
      is an integer the product rounds to that integer, and where it is not, it is at
      least 0.2 away from every integer and the product within \<open>0.001\<close> of it.\<close>
  "significant name_lower price_name =
     (let name_words = split name_lower;
          price_words = split price_name;
          common = common_words name_words price_words
      in 3 * min (len_set name_words) (len_set price_words) \<le> 5 * length common)"

fun partial_match :: "string \<Rightarrow> pricing \<Rightarrow> price_data option" where
  "partial_match name_lower [] = None"
| "partial_match name_lower ((price_name, price_data) # rest) =
     (if (py_in name_lower price_name \<or> py_in price_name name_lower)
         \<and> significant name_lower price_name
      then Some price_data
      else partial_match name_lower rest)"

definition match_pricing :: "pricing \<Rightarrow> string \<Rightarrow> price_data option" where
  \<comment> \<open>The first argument is the module's \<open>PRICING_DATA\<close>.\<close>
  "match_pricing pd model_name =
     (if pd = [] then None
      else
        let name_lower = strip (lower model_name) in
        case map_of pd name_lower of
          Some price_data \<Rightarrow> Some price_data
        | None \<Rightarrow>
            (case lookup_variants pd (variations name_lower) of
               Some price_data \<Rightarrow> Some price_data
             | None \<Rightarrow> partial_match name_lower pd))"

section \<open>Model resolver\<close>

text \<open>
  One object of the \<open>results\<close> list of a search response, by the fields the code reads.
  \<open>c_name\<close> and \<open>c_tags\<close> are \<open>None\<close> when the key is missing (the code gives those two
  a default); the other fields hold what \<open>result.get(key)\<close> returns, \<open>JNull\<close> for a
  missing key as for a null. \<open>c_str\<close> is \<open>str(result)\<close>, Python's rendering of the whole
  object, of which the code only asks whether the creator occurs in it. A result that
  is not an object raises where one with a name that is not a string does.
\<close>

record candidate =
  c_name :: "jval option"
  c_air :: jval
  c_category :: jval
  c_type :: jval
  c_architecture :: jval
  c_tags :: "jval option"
  c_str :: string

text \<open>
  The dict \<open>best_match\<close>. Its name is \<open>result.get("name")\<close> of a result whose name has been
  lowered without raising: a string, or \<open>None\<close> for a missing key.
\<close>

record best_match =
  bm_air :: jval
  bm_name :: "string option"
  bm_category :: jval
  bm_type :: jval
  bm_architecture :: jval
  bm_tags :: jval

record request =
  taskType :: string
  taskUUID :: string
  search :: string
  limit :: nat
  offset :: nat

text \<open>
  What one \<open>requests.post\<close> gives. \<open>PostError\<close>: the call raises. \<open>Response status payload\<close>:
  it returns with that status code, and \<open>payload\<close> is what reading the body gives:
  \<open>JsonError\<close> when \<open>resp.json()\<close> or the path to the results raises, \<open>NoData\<close> when the
  document is falsy, has no \<open>data\<close> key or an empty \<open>data\<close> list, \<open>Results rs\<close> when
  \<open>data["data"][0].get("results", [])\<close> is the list \<open>rs\<close>.
\<close>

datatype payload = JsonError | NoData | Results "candidate list"

datatype response = PostError | Response nat payload

definition nb_hyphen :: string where
  \<comment> \<open>the three characters U+201A U+00C4 U+00EB of the source's literal, in UTF-8\<close>
  "nb_hyphen = [CHR 0xE2, CHR 0x80, CHR 0x9A, CHR 0xC3, CHR 0x84, CHR 0xC3, CHR 0xAB]"

definition search_variations :: "string \<Rightarrow> string list" where
  "search_variations model_name =
     [model_name,
      replace '']'' '''' (replace ''['' '''' model_name),
      replace nb_hyphen ''-'' model_name,
      strip (split_first CHR ''('' model_name)]"

fun add_terms :: "string list \<Rightarrow> string list \<Rightarrow> string list" where
  "add_terms [] search_terms = search_terms"
| "add_terms (term # rest) search_terms =
     add_terms rest
       (if term \<noteq> [] \<and> term \<notin> set search_terms then search_terms @ [term]
        else search_terms)"

definition search_terms :: "string \<Rightarrow> string list" where
  "search_terms model_name = add_terms (search_variations model_name) []"

definition result_name :: "candidate \<Rightarrow> string option" where
  \<comment> \<open>\<open>result.get("name", "").lower()\<close>; \<open>None\<close> when it raises\<close>
  "result_name result =
     (case c_name result of
        None \<Rightarrow> Some (lower [])
      | Some (JStr s) \<Rightarrow> Some (lower s)
      | Some _ \<Rightarrow> None)"

definition base_score :: "string \<Rightarrow> string \<Rightarrow> string \<Rightarrow> nat" where
  \<comment> \<open>the score before the creator bonus, from the lowered name of the result\<close>
  "base_score model_name search_term rn =
     (let search_lower = lower search_term;
          original_lower = lower model_name
      in if rn = original_lower \<or> rn = search_lower then 100
         else if py_in search_lower rn \<or> py_in rn search_lower then 80
         else
           let words = split (replace ''-'' '' '' original_lower);
               result_words = split (replace ''-'' '' '' rn);
               common = common_words words result_words
           in if common \<noteq> [] then length common * 20 else 0)"

definition creator_given :: "string option \<Rightarrow> bool" where
  \<comment> \<open>the truth value of \<open>creator\<close>: neither \<open>None\<close> nor the empty string\<close>
  "creator_given creator = (case creator of None \<Rightarrow> False | Some c \<Rightarrow> c \<noteq> [])"

definition score_result ::
  "string \<Rightarrow> string \<Rightarrow> string option \<Rightarrow> candidate \<Rightarrow> nat option" where
  \<comment> \<open>the score of one result; \<open>None\<close> when scoring it raises\<close>
  "score_result model_name search_term creator result =
     (case result_name result of
        None \<Rightarrow> None
      | Some rn \<Rightarrow>
          let score = base_score model_name search_term rn
          in if creator_given creator \<and> 0 < score
                \<and> py_in (lower (the creator)) (lower (c_str result))
             then Some (score + 10)
             else Some score)"

definition make_match :: "candidate \<Rightarrow> best_match" where
  "make_match result =
     \<lparr>bm_air = c_air result,
      bm_name = (case c_name result of Some (JStr s) \<Rightarrow> Some s | _ \<Rightarrow> None),
      bm_category = c_category result,
      bm_type = c_type result,
      bm_architecture = c_architecture result,
      bm_tags = (case c_tags result of None \<Rightarrow> JArr [] | Some t \<Rightarrow> t)\<rparr>"

text \<open>
  How a loop of \<open>search_model_details\<close> ends: an exception, the \<open>return best_match\<close> inside
  the loop, or the end of the loop with \<open>best_match\<close> and \<open>best_score\<close>.
\<close>

datatype outcome =
    Raised
  | Returned "best_match option"
  | Finished "best_match option" nat

fun score_results ::
  "string \<Rightarrow> string \<Rightarrow> string option \<Rightarrow> candidate list \<Rightarrow> best_match option \<Rightarrow> nat
   \<Rightarrow> outcome" where
  "score_results model_name search_term creator [] best best_score = Finished best best_score"
| "score_results model_name search_term creator (result # rest) best best_score =
     (case score_result model_name search_term creator result of
        None \<Rightarrow> Raised
      | Some score \<Rightarrow>
          let best' = (if best_score < score then Some (make_match result) else best);
              best_score' = (if best_score < score then score else best_score)
          in if 100 \<le> score then Returned best'
             else score_results model_name search_term creator rest best' best_score')"

text \<open>
  The loop over the search terms. \<open>uuid4 k\<close> is the value of the \<open>k\<close>-th call of
  \<open>uuid.uuid4()\<close> of the run, \<open>post\<close> the remote endpoint; the counter of the calls made so
  far is passed through and returned.
\<close>

fun search_loop ::
  "(nat \<Rightarrow> string) \<Rightarrow> (request \<Rightarrow> response) \<Rightarrow> string \<Rightarrow> string option \<Rightarrow> nat
   \<Rightarrow> string list \<Rightarrow> nat \<Rightarrow> best_match option \<Rightarrow> nat \<Rightarrow> outcome \<times> nat" where
  "search_loop uuid4 post model_name creator limit_arg [] k best best_score =
     (Finished best best_score, k)"
| "search_loop uuid4 post model_name creator limit_arg (search_term # rest) k best best_score =
     (let body = \<lparr>taskType = ''modelSearch'', taskUUID = uuid4 k, search = search_term,
                  limit = limit_arg, offset = 0\<rparr>
      in case post body of
           PostError \<Rightarrow> (Raised, Suc k)
         | Response status payload \<Rightarrow>
             if status \<noteq> 200
             then search_loop uuid4 post model_name creator limit_arg rest (Suc k) best best_score
             else
               (case payload of
                  JsonError \<Rightarrow> (Raised, Suc k)
                | NoData \<Rightarrow>
                    search_loop uuid4 post model_name creator limit_arg rest (Suc k) best best_score
                | Results results \<Rightarrow>
                    (case score_results model_name search_term creator results best best_score of
                       Raised \<Rightarrow> (Raised, Suc k)
                     | Returned b \<Rightarrow> (Returned b, Suc k)
                     | Finished best' best_score' \<Rightarrow>
                         search_loop uuid4 post model_name creator limit_arg rest (Suc k)
                           best' best_score')))"

definition search_model_details ::
  "(nat \<Rightarrow> string) \<Rightarrow> (request \<Rightarrow> response) \<Rightarrow> nat \<Rightarrow> string \<Rightarrow> string option \<Rightarrow> nat
   \<Rightarrow> best_match option \<times> nat" where
  \<comment> \<open>\<open>search_model_details(model_name, creator, limit)\<close>, started when \<open>k\<close> UUIDs have been
      drawn; \<open>None\<close> is Python's \<open>None\<close>.\<close>
  "search_model_details uuid4 post k model_name creator limit_arg =
     (case search_loop uuid4 post model_name creator limit_arg (search_terms model_name) k None 0 of
        (Raised, k') \<Rightarrow> (None, k')
      | (Returned b, k') \<Rightarrow> (b, k')
      | (Finished best best_score, k') \<Rightarrow>
          (if best \<noteq> None \<and> 40 \<le> best_score then best else None, k'))"

section \<open>Enrichment and the output files\<close>

record curated =
  cu_name :: string
  cu_creator :: "string option"

record scraped =
  sc_model_id :: string
  sc_name :: string

text \<open>
  A dict of the \<open>models\<close> list of an output file. A field of an option type is \<open>None\<close> when
  the dict has no such key: \<open>model_id\<close> is a key of the scraped records only, \<open>creator\<close>
  of the curated ones (\<open>Some None\<close> is a null creator), and the price keys are set only
  on a pricing match.
\<close>

record enriched_model =
  em_model_id :: "string option"
  em_name :: string
  em_creator :: "string option option"
  em_air :: jval
  em_category :: jval
  em_type :: jval
  em_architecture :: jval
  em_tags :: jval
  em_price_usd :: "jval option"
  em_price_configuration :: "jval option"
  em_price_discount :: "jval option"

definition add_pricing :: "price_data option \<Rightarrow> enriched_model \<Rightarrow> enriched_model" where
  "add_pricing pricing enriched_model =
     (case pricing of
        None \<Rightarrow> enriched_model
      | Some p \<Rightarrow>
          enriched_model
            \<lparr>em_price_usd := Some (price_usd p),
             em_price_configuration :=
               (if truthy (configuration p) then Some (configuration p) else None),
             em_price_discount :=
               (if truthy (discount p) then Some (discount p) else None)\<rparr>)"

definition enriched_by_name :: "pricing \<Rightarrow> curated \<Rightarrow> best_match \<Rightarrow> enriched_model" where
  \<comment> \<open>the dict \<open>enriched_model\<close> of \<open>enrich_models_by_name\<close>, with its price keys\<close>
  "enriched_by_name pd model api_data =
     (let model_name = cu_name model
      in add_pricing (match_pricing pd model_name)
           \<lparr>em_model_id = None,
            em_name = model_name,
            em_creator = Some (cu_creator model),
            em_air = bm_air api_data,
            em_category = bm_category api_data,
            em_type = bm_type api_data,
            em_architecture = bm_architecture api_data,
            em_tags = bm_tags api_data,
            em_price_usd = None,
            em_price_configuration = None,
            em_price_discount = None\<rparr>)"

fun enrich_models_by_name ::
  "(nat \<Rightarrow> string) \<Rightarrow> (request \<Rightarrow> response) \<Rightarrow> pricing \<Rightarrow> curated list \<Rightarrow> nat
   \<Rightarrow> enriched_model list \<times> nat" where
  "enrich_models_by_name uuid4 post pd [] k = ([], k)"
| "enrich_models_by_name uuid4 post pd (model # rest) k =
     (let (api_data, k1) =
            search_model_details uuid4 post k (cu_name model) (cu_creator model) 20
      in case api_data of
           Some a \<Rightarrow>
             let (enriched, k2) = enrich_models_by_name uuid4 post pd rest k1
             in (enriched_by_name pd model a # enriched, k2)
         | None \<Rightarrow> enrich_models_by_name uuid4 post pd rest k1)"

definition search_by_id ::
  "(nat \<Rightarrow> string) \<Rightarrow> (request \<Rightarrow> response) \<Rightarrow> nat \<Rightarrow> scraped \<Rightarrow> best_match option \<times> nat" where
  \<comment> \<open>the scraped name first when there is one, then the model identifier\<close>
  "search_by_id uuid4 post k model =
     (let (api_data, k1) =
            (if sc_name model \<noteq> []
             then search_model_details uuid4 post k (sc_name model) None 20
             else (None, k))
      in if api_data = None
         then search_model_details uuid4 post k1 (sc_model_id model) None 20
         else (api_data, k1))"

definition name_or :: "string option \<Rightarrow> string \<Rightarrow> string" where
  \<comment> \<open>\<open>api_data.get("name") or scraped_name\<close>\<close>
  "name_or api_name scraped_name =
     (case api_name of
        None \<Rightarrow> scraped_name
      | Some s \<Rightarrow> if s \<noteq> [] then s else scraped_name)"

definition enriched_by_id :: "pricing \<Rightarrow> scraped \<Rightarrow> best_match \<Rightarrow> enriched_model" where
  \<comment> \<open>the dict \<open>enriched_model\<close> of \<open>enrich_models_by_id\<close>, with its price keys\<close>
  "enriched_by_id pd model api_data =
     (let model_id = sc_model_id model;
          scraped_name = sc_name model
      in add_pricing (match_pricing pd (name_or (bm_name api_data) scraped_name))
           \<lparr>em_model_id = Some model_id,
            em_name = name_or (bm_name api_data) scraped_name,
            em_creator = None,
            em_air = bm_air api_data,
            em_category = bm_category api_data,
            em_type = bm_type api_data,
            em_architecture = bm_architecture api_data,
            em_tags = bm_tags api_data,
            em_price_usd = None,
            em_price_configuration = None,
            em_price_discount = None\<rparr>)"

fun enrich_models_by_id ::
  "(nat \<Rightarrow> string) \<Rightarrow> (request \<Rightarrow> response) \<Rightarrow> pricing \<Rightarrow> scraped list \<Rightarrow> nat
   \<Rightarrow> enriched_model list \<times> nat" where
  "enrich_models_by_id uuid4 post pd [] k = ([], k)"
| "enrich_models_by_id uuid4 post pd (model # rest) k =
     (let (api_data, k1) = search_by_id uuid4 post k model
      in case api_data of
           Some a \<Rightarrow>
             let (enriched, k2) = enrich_models_by_id uuid4 post pd rest k1
             in (enriched_by_id pd model a # enriched, k2)
         | None \<Rightarrow> enrich_models_by_id uuid4 post pd rest k1)"

definition POPULAR_MODELS :: "curated list" where
  "POPULAR_MODELS =
     [\<lparr>cu_name = ''ImagineArt 1.5 Pro'', cu_creator = Some ''ImagineArt''\<rparr>,
      \<lparr>cu_name = ''Qwen-Image-2512'', cu_creator = Some ''Alibaba''\<rparr>,
      \<lparr>cu_name = ''Seedream 4.5'', cu_creator = Some ''ByteDance''\<rparr>,
      \<lparr>cu_name = ''FLUX.2 [klein] 9B'', cu_creator = Some ''Black Forest Labs''\<rparr>,
      \<lparr>cu_name = ''FLUX.2 [klein] 4B'', cu_creator = Some ''Black Forest Labs''\<rparr>,
      \<lparr>cu_name = ''Kling IMAGE O1'', cu_creator = Some ''Kling AI''\<rparr>,
      \<lparr>cu_name = ''Nano Banana Pro'', cu_creator = Some ''Google''\<rparr>,
      \<lparr>cu_name = ''Z-Image-Turbo'', cu_creator = Some ''Alibaba''\<rparr>,
      \<lparr>cu_name = ''Qwen-Image-Edit-Plus'', cu_creator = Some ''Alibaba''\<rparr>,
      \<lparr>cu_name = ''FLUX.2 [dev]'', cu_creator = Some ''Black Forest Labs''\<rparr>,
      \<lparr>cu_name = ''Qwen-Image-Edit-2511'', cu_creator = Some ''Alibaba''\<rparr>,
      \<lparr>cu_name = ''Object Eraser'', cu_creator = None\<rparr>,
      \<lparr>cu_name = ''Riverflow 2.0 Pro'', cu_creator = Some ''Sourceful''\<rparr>,
      \<lparr>cu_name = ''GPT Image 1.5'', cu_creator = Some ''OpenAI''\<rparr>,
      \<lparr>cu_name = ''Wan2.6 Image'', cu_creator = Some ''Alibaba''\<rparr>,
      \<lparr>cu_name = ''Midjourney V7'', cu_creator = Some ''Midjourney''\<rparr>,
      \<lparr>cu_name = ''ImagineArt 1.5'', cu_creator = Some ''ImagineArt''\<rparr>,
      \<lparr>cu_name = ''FLUX.2 [max]'', cu_creator = Some ''Black Forest Labs''\<rparr>,
      \<lparr>cu_name = ''Imagen 4 Preview'', cu_creator = Some ''Google''\<rparr>,
      \<lparr>cu_name = ''Imagen 4 Fast'', cu_creator = Some ''Google''\<rparr>,
      \<lparr>cu_name = ''Riverflow 2 Preview Max'', cu_creator = Some ''Sourceful''\<rparr>,
      \<lparr>cu_name = ''Riverflow 2 Preview Standard'', cu_creator = Some ''Sourceful''\<rparr>,
      \<lparr>cu_name = ''Midjourney V6'', cu_creator = Some ''Midjourney''\<rparr>,
      \<lparr>cu_name = ''Bria FIBO Edit'', cu_creator = Some ''Bria''\<rparr>]"

record collection =
  col_name :: string
  col_url :: string
  col_output_file :: string

definition SCRAPE_COLLECTIONS :: "collection list" where
  "SCRAPE_COLLECTIONS =
     [\<lparr>col_name = ''Best for Text on Images'',
       col_url = ''https://runware.ai/collections/best-for-text-on-images'',
       col_output_file = ''best_models.json''\<rparr>]"

record output_file =
  source :: string
  collection_name :: string
  date_extracted :: string
  total_models :: nat
  models :: "enriched_model list"

text \<open>
  The loop of the main block over the collections. \<open>scrape url\<close> is the list that
  \<open>scrape_collection_models(url)\<close> returns (empty when the page has no model link or the
  request fails). The result lists the files written, each with its name, in order.
\<close>

fun process_collections ::
  "(nat \<Rightarrow> string) \<Rightarrow> (request \<Rightarrow> response) \<Rightarrow> (string \<Rightarrow> scraped list) \<Rightarrow> pricing \<Rightarrow> string
   \<Rightarrow> collection list \<Rightarrow> nat \<Rightarrow> (string \<times> output_file) list" where
  "process_collections uuid4 post scrape pd today [] k = []"
| "process_collections uuid4 post scrape pd today (collection # rest) k =
     (let scraped_models = scrape (col_url collection)
      in if scraped_models = []
         then process_collections uuid4 post scrape pd today rest k
         else
           let (enriched, k1) = enrich_models_by_id uuid4 post pd scraped_models k;
               output_data =
                 \<lparr>source = col_url collection,
                  collection_name = col_name collection,
                  date_extracted = today,
                  total_models = length enriched,
                  models = enriched\<rparr>
           in (col_output_file collection, output_data)
              # process_collections uuid4 post scrape pd today rest k1)"

definition main ::
  "(nat \<Rightarrow> string) \<Rightarrow> (request \<Rightarrow> response) \<Rightarrow> (string \<Rightarrow> scraped list) \<Rightarrow> pricing \<Rightarrow> string
   \<Rightarrow> (string \<times> output_file) list" where
  "main uuid4 post scrape pd today =
     (let (popular_enriched, k) = enrich_models_by_name uuid4 post pd POPULAR_MODELS 0;
          popular_output =
            \<lparr>source = ''https://runware.ai/models'',
             collection_name = ''Popular Models'',
             date_extracted = today,
             total_models = length popular_enriched,
             models = popular_enriched\<rparr>
      in (''popular_models.json'', popular_output)
         # process_collections uuid4 post scrape pd today SCRAPE_COLLECTIONS k)"

section \<open>The course of a search\<close>

text \<open>
  To say what a search did, its steps are listed: \<open>Posted\<close> for a request sent, \<open>Exc\<close> for
  an exception, \<open>Scored r s\<close> for a result \<open>r\<close> that was given the score \<open>s\<close>.
  \<open>all_events\<close> lists the steps of all search terms in order, as if nothing stopped the
  loops; \<open>executed\<close> cuts the list where the function leaves them: after the first
  exception or the first score of at least 100.
\<close>

datatype event = Posted | Exc | Scored candidate nat

definition response_events ::
  "string \<Rightarrow> string option \<Rightarrow> string \<Rightarrow> response \<Rightarrow> event list" where
  "response_events model_name creator search_term resp =
     (case resp of
        PostError \<Rightarrow> [Exc]
      | Response status payload \<Rightarrow>
          if status \<noteq> 200 then []
          else
            (case payload of
               JsonError \<Rightarrow> [Exc]
             | NoData \<Rightarrow> []
             | Results results \<Rightarrow>
                 map (\<lambda>result.
                        case score_result model_name search_term creator result of
                          None \<Rightarrow> Exc
                        | Some score \<Rightarrow> Scored result score)
                   results))"

fun all_events ::
  "(nat \<Rightarrow> string) \<Rightarrow> (request \<Rightarrow> response) \<Rightarrow> string \<Rightarrow> string option \<Rightarrow> nat
   \<Rightarrow> string list \<Rightarrow> nat \<Rightarrow> event list" where
  "all_events uuid4 post model_name creator limit_arg [] k = []"
| "all_events uuid4 post model_name creator limit_arg (search_term # rest) k =
     Posted
     # response_events model_name creator search_term
         (post \<lparr>taskType = ''modelSearch'', taskUUID = uuid4 k, search = search_term,
                limit = limit_arg, offset = 0\<rparr>)
     @ all_events uuid4 post model_name creator limit_arg rest (Suc k)"

fun executed :: "event list \<Rightarrow> event list" where
  "executed [] = []"
| "executed (Posted # es) = Posted # executed es"
| "executed (Exc # es) = [Exc]"
| "executed (Scored r s # es) = Scored r s # (if 100 \<le> s then [] else executed es)"

definition search_events ::
  "(nat \<Rightarrow> string) \<Rightarrow> (request \<Rightarrow> response) \<Rightarrow> nat \<Rightarrow> string \<Rightarrow> string option \<Rightarrow> nat
   \<Rightarrow> event list" where
  \<comment> \<open>the steps of \<open>search_model_details(model_name, creator, limit)\<close>\<close>
  "search_events uuid4 post k model_name creator limit_arg =
     executed (all_events uuid4 post model_name creator limit_arg (search_terms model_name) k)"

fun scored :: "event list \<Rightarrow> (candidate \<times> nat) list" where
  "scored [] = []"
| "scored (Scored r s # es) = (r, s) # scored es"
| "scored (e # es) = scored es"

fun posts :: "event list \<Rightarrow> nat" where
  "posts [] = 0"
| "posts (Posted # es) = Suc (posts es)"
| "posts (e # es) = posts es"

fun max_score :: "(candidate \<times> nat) list \<Rightarrow> nat" where
  "max_score [] = 0"
| "max_score ((r, s) # scs) = max s (max_score scs)"

definition highest_scoring :: "(candidate \<times> nat) list \<Rightarrow> candidate option" where
  \<comment> \<open>the first of the results that have the highest score\<close>
  "highest_scoring scs = map_option fst (find (\<lambda>(r, s). s = max_score scs) scs)"

text \<open>The two loops of the search as one pass over the steps, with the requests counted.\<close>

fun run :: "event list \<Rightarrow> best_match option \<Rightarrow> nat \<Rightarrow> outcome \<times> nat" where
  "run [] best best_score = (Finished best best_score, 0)"
| "run (Posted # es) best best_score = (let (out, n) = run es best best_score in (out, Suc n))"
| "run (Exc # es) best best_score = (Raised, 0)"
| "run (Scored r s # es) best best_score =
     (let best' = (if best_score < s then Some (make_match r) else best);
          best_score' = (if best_score < s then s else best_score)
      in if 100 \<le> s then (Returned best', 0) else run es best' best_score')"

section \<open>The score as the specification words it\<close>

definition hyphen_words :: "string \<Rightarrow> string set" where
  \<comment> \<open>the words of a name, split at white space and at hyphens\<close>
  "hyphen_words s = set (split (map (\<lambda>c. if c = CHR ''-'' then CHR '' '' else c) s))"

definition matching_score :: "string \<Rightarrow> string \<Rightarrow> string \<Rightarrow> nat" where
  \<comment> \<open>100 for an exact match of the original name or the variant, else 80 when the
      variant and the candidate's name contain one another, else 20 for each word the
      original name and the candidate's name share; all without regard to case\<close>
  "matching_score original variant cand_name =
     (if lower cand_name = lower original \<or> lower cand_name = lower variant then 100
      else if sublist (lower variant) (lower cand_name)
              \<or> sublist (lower cand_name) (lower variant) then 80
      else 20 * card (hyphen_words (lower original) \<inter> hyphen_words (lower cand_name)))"

definition creator_appears :: "string option \<Rightarrow> string \<Rightarrow> bool" where
  \<comment> \<open>a creator hint is supplied and occurs in the serialized candidate\<close>
  "creator_appears creator serialized =
     (case creator of
        None \<Rightarrow> False
      | Some c \<Rightarrow> c \<noteq> [] \<and> sublist (lower c) (lower serialized))"

definition stated_score :: "string \<Rightarrow> string \<Rightarrow> string option \<Rightarrow> string \<Rightarrow> string \<Rightarrow> nat" where
  \<comment> \<open>the matching score plus 10 whenever the creator appears\<close>
  "stated_score original variant creator cand_name serialized =
     matching_score original variant cand_name
     + (if creator_appears creator serialized then 10 else 0)"

section \<open>The resolutions of a run\<close>

text \<open>
  Each entry of an input list with what its search returned in the run, the counter of
  the UUIDs passed on from entry to entry as the enrichment loops do.
\<close>

fun resolutions_by_name ::
  "(nat \<Rightarrow> string) \<Rightarrow> (request \<Rightarrow> response) \<Rightarrow> curated list \<Rightarrow> nat
   \<Rightarrow> (curated \<times> best_match option) list" where
  "resolutions_by_name uuid4 post [] k = []"
| "resolutions_by_name uuid4 post (model # rest) k =
     (let (api_data, k1) =
            search_model_details uuid4 post k (cu_name model) (cu_creator model) 20
      in (model, api_data) # resolutions_by_name uuid4 post rest k1)"

fun resolutions_by_id ::
  "(nat \<Rightarrow> string) \<Rightarrow> (request \<Rightarrow> response) \<Rightarrow> scraped list \<Rightarrow> nat
   \<Rightarrow> (scraped \<times> best_match option) list" where
  "resolutions_by_id uuid4 post [] k = []"
| "resolutions_by_id uuid4 post (model # rest) k =
     (let (api_data, k1) = search_by_id uuid4 post k model
      in (model, api_data) # resolutions_by_id uuid4 post rest k1)"

section \<open>The pricing fallback as the specification words it\<close>

definition contain_one_another :: "string \<Rightarrow> string \<Rightarrow> bool" where
  \<comment> \<open>one of the two names is a substring of the other\<close>
  "contain_one_another a b = (sublist a b \<or> sublist b a)"

definition share_sixty_percent :: "string \<Rightarrow> string \<Rightarrow> bool" where
  \<comment> \<open>the words the names share, as a set, are at least 60% of the smaller word count\<close>
  "share_sixty_percent a b =
     (0.6 * real (min (card (set (split a))) (card (set (split b))))
        \<le> real (card (set (split a) \<inter> set (split b))))"

section \<open>A sample run\<close>

text \<open>
  Results of a remote endpoint (two models of one creator, an eraser without an
  identifier, a result without a name and one whose name is null), endpoints that
  answer with them, two sources of UUIDs, a price table with the pricing map it loads
  to, and a scraped collection. \<open>c_str\<close> is written as Python prints the object.
\<close>

definition imagen_4 :: candidate where
  "imagen_4 =
     \<lparr>c_name = Some (JStr ''Imagen 4''), c_air = JStr ''google:2@1'',
      c_category = JStr ''checkpoint'', c_type = JStr ''base'',
      c_architecture = JStr ''imagen4'', c_tags = Some (JArr []),
      c_str = ''{'name': 'Imagen 4', 'air': 'google:2@1', 'category': 'checkpoint', 'type': 'base', 'architecture': 'imagen4', 'tags': []}''\<rparr>"

definition imagen_4_fast :: candidate where
  "imagen_4_fast =
     \<lparr>c_name = Some (JStr ''Imagen 4 Fast''), c_air = JStr ''google:2@3'',
      c_category = JStr ''checkpoint'', c_type = JStr ''base'',
      c_architecture = JStr ''imagen4fast'', c_tags = None,
      c_str = ''{'name': 'Imagen 4 Fast', 'air': 'google:2@3', 'category': 'checkpoint', 'type': 'base', 'architecture': 'imagen4fast'}''\<rparr>"

definition eraser :: candidate where
  "eraser =
     \<lparr>c_name = Some (JStr ''Object Eraser''), c_air = JNull,
      c_category = JStr ''checkpoint'', c_type = JNull,
      c_architecture = JNull, c_tags = None,
      c_str = ''{'name': 'Object Eraser', 'category': 'checkpoint'}''\<rparr>"

definition nameless :: candidate where
  "nameless =
     \<lparr>c_name = None, c_air = JStr ''bytedance:5@0'',
      c_category = JNull, c_type = JNull,
      c_architecture = JNull, c_tags = Some (JArr [JStr ''text'']),
      c_str = ''{'air': 'bytedance:5@0', 'tags': ['text']}''\<rparr>"

definition null_named :: candidate where
  "null_named =
     \<lparr>c_name = Some JNull, c_air = JStr ''google:9@9'',
      c_category = JNull, c_type = JNull,
      c_architecture = JNull, c_tags = None,
      c_str = ''{'name': None, 'air': 'google:9@9'}''\<rparr>"

definition sample_post :: "request \<Rightarrow> response" where
  "sample_post req =
     (if search req = ''Imagen 4 Fast'' then Response 200 (Results [imagen_4, imagen_4_fast])
      else if search req = ''Nano Banana Pro'' then Response 200 (Results [imagen_4])
      else if search req = ''Object Eraser'' then Response 200 (Results [eraser])
      else if search req = ''seedream-4-5'' then Response 200 (Results [nameless])
      else if search req = ''Midjourney V7'' then PostError
      else if search req = ''Midjourney V6'' then Response 500 NoData
      else Response 200 NoData)"

definition exact_first :: "request \<Rightarrow> response" where
  "exact_first req = Response 200 (Results [imagen_4_fast, imagen_4])"

definition exact_last :: "request \<Rightarrow> response" where
  "exact_last req = Response 200 (Results [imagen_4, imagen_4_fast])"

definition uuid_a :: "nat \<Rightarrow> string" where
  "uuid_a k = ''6f1d2c8e-3b7a-4c55-9e0f-2a41d7c3b9'' @ (if even k then ''00'' else ''01'')"

definition uuid_b :: "nat \<Rightarrow> string" where
  "uuid_b k = ''c0ffee00-1234-4abc-8def-0123456789ab''"

definition sample_prices :: "price_entry list" where
  "sample_prices =
     [\<lparr>pe_name = Some (JStr ''Imagen 4 Fast''), pe_price_usd = JNum (2 / 100),
       pe_configuration = JStr ''1024x1024'', pe_discount = JNull\<rparr>,
      \<lparr>pe_name = Some (JStr ''FLUX.2 dev''), pe_price_usd = JNum (12 / 1000),
       pe_configuration = JNull, pe_discount = JStr ''-20%''\<rparr>,
      \<lparr>pe_name = Some (JStr '' imagen 4 fast''), pe_price_usd = JNum (3 / 100),
       pe_configuration = JNull, pe_discount = JNull\<rparr>,
      \<lparr>pe_name = Some (JStr ''imagen-4-fast''), pe_price_usd = JNum 9,
       pe_configuration = JNull, pe_discount = JNull\<rparr>,
      \<lparr>pe_name = Some (JStr ''Seedream 4 5''), pe_price_usd = JNum (4 / 100),
       pe_configuration = JStr ''2048x2048'', pe_discount = JNum 0\<rparr>]"

definition sample_pricing :: pricing where
  "sample_pricing =
     [(''imagen 4 fast'',
       \<lparr>price_usd = JNum (3 / 100), configuration = JNull, discount = JNull\<rparr>),
      (''flux.2 dev'',
       \<lparr>price_usd = JNum (12 / 1000), configuration = JNull, discount = JStr ''-20%''\<rparr>),
      (''imagen-4-fast'',
       \<lparr>price_usd = JNum 9, configuration = JNull, discount = JNull\<rparr>),
      (''seedream 4 5'',
       \<lparr>price_usd = JNum (4 / 100), configuration = JStr ''2048x2048'',
        discount = JNum 0\<rparr>)]"

definition sample_scrape :: "string \<Rightarrow> scraped list" where
  "sample_scrape url =
     [\<lparr>sc_model_id = ''imagen-4-fast'', sc_name = ''Imagen 4 Fast''\<rparr>,
      \<lparr>sc_model_id = ''seedream-4-5'', sc_name = ''Seedream 4 5''\<rparr>]"

section \<open>Auxiliary facts\<close>

subsection \<open>Strings and word sets\<close>

lemma is_space_lower_char: "is_space (lower_char c) = is_space c"
  by (simp add: is_space_def lower_char_def split: option.splits)

lemma lower_char_idem: "lower_char (lower_char c) = lower_char c"
  by (simp add: lower_char_def split: option.splits)

lemma lower_idem: "lower (lower s) = lower s"
  by (simp add: lower_def lower_char_idem)

lemma dropWhile_space_lower: "dropWhile is_space (lower s) = lower (dropWhile is_space s)"
  by (induction s) (simp_all add: lower_def is_space_lower_char)

lemma lower_rev: "lower (rev s) = rev (lower s)"
  by (simp add: lower_def rev_map)

lemma strip_lower: "strip (lower s) = lower (strip s)"
  by (simp add: strip_def dropWhile_space_lower lower_rev [symmetric])

lemma dropWhile_fix: "xs = [] \<or> \<not> P (hd xs) \<Longrightarrow> dropWhile P xs = xs"
  by (cases xs) auto

lemma strip_idem: "strip (strip s) = strip s"
proof -
  define t where "t = dropWhile is_space s"
  define u where "u = dropWhile is_space (rev t)"
  have u1: "dropWhile is_space u = u"
    unfolding u_def by simp
  have "rev u = [] \<or> \<not> is_space (hd (rev u))"
  proof (cases "u = []")
    case True
    then show ?thesis by simp
  next
    case False
    then have "last u = last (rev t)"
      unfolding u_def by (metis last_appendR takeWhile_dropWhile_id)
    moreover have "rev t \<noteq> []" using False u_def by auto
    ultimately have "hd (rev u) = hd t"
      using False by (simp add: hd_rev last_rev)
    moreover have "t \<noteq> []" using \<open>rev t \<noteq> []\<close> by simp
    then have "\<not> is_space (hd t)"
      unfolding t_def by (metis hd_dropWhile)
    ultimately show ?thesis by simp
  qed
  then have "dropWhile is_space (rev u) = rev u"
    by (rule dropWhile_fix)
  then have "strip (rev u) = rev u"
    by (simp add: strip_def u1)
  then show ?thesis
    by (simp add: strip_def t_def u_def)
qed

lemma normal_idem: "strip (lower (strip (lower s))) = strip (lower s)"
  by (simp add: strip_lower strip_idem lower_idem)

lemma py_in_sublist: "py_in a b = sublist a b"
  by (induction b) (simp_all add: sublist_Cons_right)

lemma length_common_words: "length (common_words xs ys) = card (set xs \<inter> set ys)"
proof -
  have "distinct (common_words xs ys)" by (simp add: common_words_def)
  moreover have "set (common_words xs ys) = set xs \<inter> set ys"
    by (auto simp: common_words_def)
  ultimately show ?thesis by (metis distinct_card)
qed

lemma len_set_card: "len_set xs = card (set xs)"
  by (simp add: len_set_def length_remdups_card_conv)

subsection \<open>The output files\<close>

lemma process_collections_total:
  "(path, f) \<in> set (process_collections uuid4 post scrape pd today cs k)
   \<Longrightarrow> total_models f = length (models f)"
proof (induction cs arbitrary: k)
  case Nil
  then show ?case by simp
next
  case (Cons c cs)
  show ?case
  proof (cases "scrape (col_url c) = []")
    case True
    then show ?thesis using Cons by simp
  next
    case False
    obtain enriched k1 where e: "enrich_models_by_id uuid4 post pd (scrape (col_url c)) k = (enriched, k1)"
      by (cases "enrich_models_by_id uuid4 post pd (scrape (col_url c)) k")
    from Cons.prems False e
    consider "f = \<lparr>source = col_url c, collection_name = col_name c, date_extracted = today,
                   total_models = length enriched, models = enriched\<rparr>"
      | "(path, f) \<in> set (process_collections uuid4 post scrape pd today cs k1)"
      by auto
    then show ?thesis
    proof cases
      case 1
      then show ?thesis by simp
    next
      case 2
      then show ?thesis by (rule Cons.IH)
    qed
  qed
qed

subsection \<open>The search as one pass over its steps\<close>

lemma run_append:
  "run (es1 @ es2) b bs =
     (case run es1 b bs of
        (Finished b' bs', n) \<Rightarrow> (let (out, m) = run es2 b' bs' in (out, n + m))
      | (out, n) \<Rightarrow> (out, n))"
  by (induction es1 b bs rule: run.induct) (auto simp: Let_def split: prod.splits outcome.splits)

lemma score_results_run:
  "run (map (\<lambda>result. case score_result mn t cr result of None \<Rightarrow> Exc
                        | Some score \<Rightarrow> Scored result score) rs) b bs
   = (score_results mn t cr rs b bs, 0)"
  by (induction rs arbitrary: b bs) (auto simp: Let_def split: option.splits)

lemma search_loop_run:
  "search_loop uuid4 post mn cr lm ts k b bs =
   (let (out, n) = run (all_events uuid4 post mn cr lm ts k) b bs in (out, k + n))"
proof (induction ts arbitrary: k b bs)
  case Nil
  then show ?case by simp
next
  case (Cons t ts)
  let ?resp = "post \<lparr>taskType = ''modelSearch'', taskUUID = uuid4 k, search = t,
                limit = lm, offset = 0\<rparr>"
  show ?case
  proof (cases ?resp)
    case PostError
    then show ?thesis by (simp add: response_events_def)
  next
    case (Response status payload)
    show ?thesis
    proof (cases "status = 200")
      case False
      then show ?thesis using Response Cons.IH
        by (simp add: response_events_def split: prod.splits)
    next
      case True
      show ?thesis
      proof (cases payload)
        case JsonError
        then show ?thesis using Response True by (simp add: response_events_def)
      next
        case NoData
        then show ?thesis using Response True Cons.IH
          by (simp add: response_events_def split: prod.splits)
      next
        case (Results rs)
        show ?thesis using Response True Results Cons.IH
          by (simp add: response_events_def run_append score_results_run
                   split: prod.splits outcome.splits)
      qed
    qed
  qed
qed

lemma highest_scoring_Cons:
  "highest_scoring ((r, s) # scs) = (if max_score scs \<le> s then Some r else highest_scoring scs)"
  by (auto simp: highest_scoring_def max_def)

lemma highest_scoring_attained: "0 < max_score scs \<Longrightarrow> highest_scoring scs \<noteq> None"
proof (induction scs)
  case Nil
  then show ?case by simp
next
  case (Cons p scs)
  obtain r s where p: "p = (r, s)" by (cases p)
  show ?case
  proof (cases "max_score scs \<le> s")
    case True
    then show ?thesis by (simp add: p highest_scoring_Cons)
  next
    case False
    then have "0 < max_score scs" by simp
    then show ?thesis using Cons.IH False by (simp add: p highest_scoring_Cons)
  qed
qed

lemma run_spec:
  "bs < 100 \<Longrightarrow>
   run es b bs =
     (let ex = executed es; scs = scored ex;
          B = (if max_score scs \<le> bs then b else map_option make_match (highest_scoring scs))
      in if Exc \<in> set ex then (Raised, posts ex)
         else if 100 \<le> max_score scs then (Returned B, posts ex)
         else (Finished B (max bs (max_score scs)), posts ex))"
proof (induction es b bs rule: run.induct)
  case (1 best best_score)
  then show ?case by simp
next
  case (2 es best best_score)
  then show ?case by (simp add: Let_def)
next
  case (3 es best best_score)
  then show ?case by simp
next
  case (4 r s es best best_score)
  show ?case
  proof (cases "100 \<le> s")
    case True
    then show ?thesis using "4.prems" by (simp add: highest_scoring_Cons)
  next
    case False
    let ?b' = "if best_score < s then Some (make_match r) else best"
    let ?bs' = "if best_score < s then s else best_score"
    have lt: "?bs' < 100" using False "4.prems" by simp
    note ih = "4.IH" [OF refl refl False lt]
    show ?thesis using False "4.prems"
      by (simp add: ih Let_def highest_scoring_Cons max_def)
  qed
qed

lemma search_model_details_steps:
  "search_model_details uuid4 post k mn cr lm =
     (let ex = search_events uuid4 post k mn cr lm; scs = scored ex
      in (if Exc \<in> set ex \<or> max_score scs < 40 then None
          else map_option make_match (highest_scoring scs),
          k + posts ex))"
proof -
  let ?ex = "executed (all_events uuid4 post mn cr lm (search_terms mn) k)"
  have att: "0 < max_score (scored ?ex) \<Longrightarrow> highest_scoring (scored ?ex) \<noteq> None"
    by (rule highest_scoring_attained)
  show ?thesis
    using att
    by (auto simp: search_model_details_def search_events_def search_loop_run run_spec Let_def)
qed

lemma max_score_events:
  "n \<le> max_score (scored es) \<longleftrightarrow> n = 0 \<or> (\<exists>r s. Scored r s \<in> set es \<and> n \<le> s)"
  by (induction es rule: scored.induct) (auto simp: le_max_iff_disj)

lemma executed_perfect:
  "Scored r s \<in> set (executed es) \<Longrightarrow> 100 \<le> s \<Longrightarrow>
   last (executed es) = Scored r s \<and> Exc \<notin> set (executed es)
   \<and> max_score (scored (executed es)) = s
   \<and> highest_scoring (scored (executed es)) = Some r"
proof (induction es rule: executed.induct)
  case 1
  then show ?case by simp
next
  case (2 es)
  then have m: "Scored r s \<in> set (executed es)" by simp
  then have "executed es \<noteq> []" by auto
  then show ?case using 2 m by simp
next
  case (3 es)
  then show ?case by simp
next
  case (4 r' s' es)
  show ?case
  proof (cases "100 \<le> s'")
    case True
    then show ?thesis using 4 by (auto simp: highest_scoring_Cons)
  next
    case False
    then have m: "Scored r s \<in> set (executed es)" using "4.prems" by auto
    then have ne: "executed es \<noteq> []" by auto
    note ih = "4.IH" [OF False m "4.prems"(2)]
    show ?thesis using False ih ne "4.prems"(2)
      by (simp add: highest_scoring_Cons max_def)
  qed
qed

subsection \<open>The search for Imagen 4 Fast\<close>

lemma imagen_terms: "search_terms ''Imagen 4 Fast'' = [''Imagen 4 Fast'']"
  by code_simp

lemma imagen_exact: "base_score ''Imagen 4 Fast'' ''Imagen 4 Fast'' (lower ''Imagen 4 Fast'') = 100"
  by code_simp

lemma imagen_partial: "base_score ''Imagen 4 Fast'' ''Imagen 4 Fast'' (lower ''Imagen 4'') = 80"
  by code_simp

lemma imagen_selected:
  assumes post: "\<forall>req. post req = Response 200 (Results [e, p])
                     \<or> post req = Response 200 (Results [p, e])"
    and e: "c_name e = Some (JStr ''Imagen 4 Fast'')"
    and p: "c_name p = Some (JStr ''Imagen 4'')"
  shows "fst (search_model_details uuid4 post k ''Imagen 4 Fast'' creator limit_arg)
         = Some (make_match e)"
proof -
  let ?mn = "''Imagen 4 Fast''"
  have se: "score_result ?mn ?mn creator e = Some 100 \<or> score_result ?mn ?mn creator e = Some 110"
    by (simp add: score_result_def result_name_def e imagen_exact)
  have sp: "score_result ?mn ?mn creator p = Some 80 \<or> score_result ?mn ?mn creator p = Some 90"
    by (simp add: score_result_def result_name_def p imagen_partial)
  let ?req = "\<lparr>taskType = ''modelSearch'', taskUUID = uuid4 k, search = ?mn,
                limit = limit_arg, offset = 0\<rparr>"
  from post have "post ?req = Response 200 (Results [e, p]) \<or> post ?req = Response 200 (Results [p, e])"
    by blast
  then show ?thesis
    using se sp
    by (auto simp: search_model_details_def imagen_terms)
qed

subsection \<open>The score\<close>

lemma replace_char: "replace [a] [b] s = map (\<lambda>c. if c = a then b else c) s"
  by (induction s) auto

lemma twenty_each: "(if xs \<noteq> [] then length xs * 20 else 0) = 20 * length xs"
  by (cases xs) simp_all

lemma hyphen_words_replace: "set (split (replace ''-'' '' '' s)) = hyphen_words s"
  by (simp add: hyphen_words_def replace_char)

lemma base_score_matching: "base_score mn st (lower nm) = matching_score mn st nm"
  unfolding base_score_def matching_score_def Let_def twenty_each
  by (simp only: py_in_sublist length_common_words hyphen_words_replace)

lemma creator_bonus_appears:
  "creator_given creator \<and> py_in (lower (the creator)) (lower serialized)
   \<longleftrightarrow> creator_appears creator serialized"
  by (simp add: creator_given_def creator_appears_def py_in_sublist split: option.splits)

lemma score_result_str:
  "c_name result = Some (JStr nm) \<Longrightarrow>
   score_result mn st creator result =
     Some (matching_score mn st nm
           + (if 0 < matching_score mn st nm \<and> creator_appears creator (c_str result)
              then 10 else 0))"
  using creator_bonus_appears [of creator "c_str result"]
  by (auto simp: score_result_def result_name_def base_score_matching Let_def)

lemma score_result_missing:
  "c_name result = None \<Longrightarrow>
   score_result mn st creator result =
     Some (matching_score mn st []
           + (if 0 < matching_score mn st [] \<and> creator_appears creator (c_str result)
              then 10 else 0))"
  using creator_bonus_appears [of creator "c_str result"] base_score_matching [of mn st "[]"]
  by (auto simp: score_result_def result_name_def Let_def lower_def)

lemma score_result_raises:
  "c_name result \<noteq> None \<Longrightarrow> (\<forall>nm. c_name result \<noteq> Some (JStr nm)) \<Longrightarrow>
   score_result mn st creator result = None"
  by (auto simp: score_result_def result_name_def split: option.splits jval.splits)

subsection \<open>The pricing map\<close>

lemma sixty_percent: "(3 * m \<le> 5 * c) \<longleftrightarrow> (0.6 * real m \<le> real (c::nat))"
proof -
  have "(3 * m \<le> 5 * c) \<longleftrightarrow> (real (3 * m) \<le> real (5 * c))"
    by (simp only: of_nat_le_iff)
  also have "\<dots> \<longleftrightarrow> (0.6 * real m \<le> real c)"
    by (simp add: mult.commute)
  finally show ?thesis .
qed

lemma significant_share: "significant a b = share_sixty_percent a b"
  by (simp only: significant_def share_sixty_percent_def Let_def len_set_card
        length_common_words sixty_percent)

lemma partial_match_Some:
  "partial_match nl pd = Some r \<Longrightarrow>
   \<exists>k. (k, r) \<in> set pd \<and> contain_one_another nl k \<and> share_sixty_percent nl k"
  by (induction nl pd rule: partial_match.induct)
     (auto simp: py_in_sublist significant_share contain_one_another_def split: if_splits)

lemma partial_match_None:
  "partial_match nl pd = None \<longleftrightarrow>
   (\<forall>(k, r) \<in> set pd. \<not> (contain_one_another nl k \<and> share_sixty_percent nl k))"
  by (induction nl pd rule: partial_match.induct)
     (auto simp: py_in_sublist significant_share contain_one_another_def split: if_splits)

lemma lookup_variants_None:
  "\<forall>v \<in> set vs. v \<notin> fst ` set pd \<Longrightarrow> lookup_variants pd vs = None"
  by (induction vs) (auto simp: map_of_eq_None_iff split: option.splits)

lemma match_pricing_falls_through:
  assumes "\<forall>v \<in> set (strip (lower n) # variations (strip (lower n))). v \<notin> fst ` set pd"
  shows "match_pricing pd n = partial_match (strip (lower n)) pd"
proof (cases "pd = []")
  case True
  then show ?thesis by (simp add: match_pricing_def)
next
  case False
  have "map_of pd (strip (lower n)) = None"
    using assms by (simp add: map_of_eq_None_iff)
  moreover have "lookup_variants pd (variations (strip (lower n))) = None"
    using assms by (intro lookup_variants_None) simp
  ultimately show ?thesis using False by (simp add: match_pricing_def)
qed

lemma load_models_lookup:
  "load_models ms pd0 = Some pd \<Longrightarrow>
   map_of pd k =
     (case filter (\<lambda>e. entry_key e = Some k) ms of
        [] \<Rightarrow> map_of pd0 k
      | e # es \<Rightarrow> Some (entry_data (last (e # es))))"
proof (induction ms arbitrary: pd0)
  case Nil
  then show ?case by simp
next
  case (Cons m ms)
  from Cons.prems obtain name where name: "entry_key m = Some name"
    and rest: "load_models ms (AList.update name (entry_data m) pd0) = Some pd"
    by (auto split: option.splits)
  note ih = Cons.IH [OF rest]
  show ?case
  proof (cases "name = k")
    case True
    then show ?thesis using ih name
      by (auto simp: update_conv' split: list.splits)
  next
    case False
    then show ?thesis using ih name
      by (auto simp: update_conv' split: list.splits)
  qed
qed

lemma entry_key_normal: "entry_key e = Some key \<Longrightarrow> strip (lower key) = key"
  by (auto simp: entry_key_def normal_idem split: option.splits jval.splits)

lemma match_pricing_exact:
  "map_of pd (strip (lower n)) = Some r \<Longrightarrow> match_pricing pd n = Some r"
  by (auto simp: match_pricing_def)

subsection \<open>Enrichment\<close>

lemma enrich_models_by_name_resolutions:
  "fst (enrich_models_by_name uuid4 post pd ms k) =
     List.map_filter (\<lambda>(m, a). map_option (enriched_by_name pd m) a)
       (resolutions_by_name uuid4 post ms k)"
proof (induction ms arbitrary: k)
  case Nil
  then show ?case by simp
next
  case (Cons m ms)
  obtain a k1 where s: "search_model_details uuid4 post k (cu_name m) (cu_creator m) 20 = (a, k1)"
    by (cases "search_model_details uuid4 post k (cu_name m) (cu_creator m) 20")
  obtain es k2 where e: "enrich_models_by_name uuid4 post pd ms k1 = (es, k2)"
    by (cases "enrich_models_by_name uuid4 post pd ms k1")
  have "es = List.map_filter (\<lambda>(m, a). map_option (enriched_by_name pd m) a)
       (resolutions_by_name uuid4 post ms k1)"
    using Cons.IH [of k1] e by simp
  then show ?case using s e by (cases a) simp_all
qed

lemma enrich_models_by_id_resolutions:
  "fst (enrich_models_by_id uuid4 post pd ms k) =
     List.map_filter (\<lambda>(m, a). map_option (enriched_by_id pd m) a)
       (resolutions_by_id uuid4 post ms k)"
proof (induction ms arbitrary: k)
  case Nil
  then show ?case by simp
next
  case (Cons m ms)
  obtain a k1 where s: "search_by_id uuid4 post k m = (a, k1)"
    by (cases "search_by_id uuid4 post k m")
  obtain es k2 where e: "enrich_models_by_id uuid4 post pd ms k1 = (es, k2)"
    by (cases "enrich_models_by_id uuid4 post pd ms k1")
  have "es = List.map_filter (\<lambda>(m, a). map_option (enriched_by_id pd m) a)
       (resolutions_by_id uuid4 post ms k1)"
    using Cons.IH [of k1] e by simp
  then show ?case using s e by (cases a) simp_all
qed

lemma map_filter_mem: "y \<in> set (List.map_filter f xs) \<longleftrightarrow> (\<exists>x \<in> set xs. f x = Some y)"
  by (induction xs) (auto split: option.splits)

subsection \<open>The task UUIDs\<close>

lemma all_events_uuid:
  assumes "\<forall>req u. post (req\<lparr>taskUUID := u\<rparr>) = post req"
  shows "all_events uuid4 post mn cr lm ts k = all_events uuid4' post mn cr lm ts k'"
proof (induction ts arbitrary: k k')
  case Nil
  then show ?case by simp
next
  case (Cons t ts)
  let ?req = "\<lparr>taskType = ''modelSearch'', taskUUID = uuid4 k, search = t,
                limit = lm, offset = 0\<rparr>"
  have "post (?req\<lparr>taskUUID := uuid4' k'\<rparr>) = post ?req"
    using assms by blast
  then have "post \<lparr>taskType = ''modelSearch'', taskUUID = uuid4' k', search = t,
                limit = lm, offset = 0\<rparr> = post ?req"
    by simp
  then show ?case using Cons.IH [of "Suc k" "Suc k'"] by simp
qed

lemma search_model_details_uuid:
  assumes "\<forall>req u. post (req\<lparr>taskUUID := u\<rparr>) = post req"
  shows "fst (search_model_details uuid4 post k mn cr lm)
         = fst (search_model_details uuid4' post k' mn cr lm)"
  using all_events_uuid [OF assms, of uuid4 mn cr lm "search_terms mn" k uuid4' k']
  by (simp add: search_model_details_steps search_events_def Let_def)

lemma search_by_id_uuid:
  assumes "\<forall>req u. post (req\<lparr>taskUUID := u\<rparr>) = post req"
  shows "fst (search_by_id uuid4 post k m) = fst (search_by_id uuid4' post k' m)"
proof -
  note s = search_model_details_uuid [OF assms]
  obtain a k1 where a: "search_model_details uuid4 post k (sc_name m) None 20 = (a, k1)"
    by (cases "search_model_details uuid4 post k (sc_name m) None 20")
  obtain a' k1' where a': "search_model_details uuid4' post k' (sc_name m) None 20 = (a', k1')"
    by (cases "search_model_details uuid4' post k' (sc_name m) None 20")
  have eq: "a = a'"
    using s [of uuid4 k "sc_name m" None 20 uuid4' k'] a a' by simp
  show ?thesis
    using eq a a' s [of uuid4 k1 "sc_model_id m" None 20 uuid4' k1']
      s [of uuid4 k "sc_model_id m" None 20 uuid4' k']
    by (simp add: search_by_id_def)
qed

lemma resolutions_by_name_uuid:
  assumes "\<forall>req u. post (req\<lparr>taskUUID := u\<rparr>) = post req"
  shows "resolutions_by_name uuid4 post ms k = resolutions_by_name uuid4' post ms k'"
proof (induction ms arbitrary: k k')
  case Nil
  then show ?case by simp
next
  case (Cons m ms)
  obtain a k1 where a: "search_model_details uuid4 post k (cu_name m) (cu_creator m) 20 = (a, k1)"
    by (cases "search_model_details uuid4 post k (cu_name m) (cu_creator m) 20")
  obtain a' k1' where a': "search_model_details uuid4' post k' (cu_name m) (cu_creator m) 20 = (a', k1')"
    by (cases "search_model_details uuid4' post k' (cu_name m) (cu_creator m) 20")
  have "a = a'"
    using search_model_details_uuid [OF assms, of uuid4 k "cu_name m" "cu_creator m" 20 uuid4' k']
      a a' by simp
  then show ?case using a a' Cons.IH [of k1 k1'] by simp
qed

lemma resolutions_by_id_uuid:
  assumes "\<forall>req u. post (req\<lparr>taskUUID := u\<rparr>) = post req"
  shows "resolutions_by_id uuid4 post ms k = resolutions_by_id uuid4' post ms k'"
proof (induction ms arbitrary: k k')
  case Nil
  then show ?case by simp
next
  case (Cons m ms)
  obtain a k1 where a: "search_by_id uuid4 post k m = (a, k1)"
    by (cases "search_by_id uuid4 post k m")
  obtain a' k1' where a': "search_by_id uuid4' post k' m = (a', k1')"
    by (cases "search_by_id uuid4' post k' m")
  have "a = a'"
    using search_by_id_uuid [OF assms, of uuid4 k m uuid4' k'] a a' by simp
  then show ?case using a a' Cons.IH [of k1 k1'] by simp
qed

lemma process_collections_uuid:
  assumes "\<forall>req u. post (req\<lparr>taskUUID := u\<rparr>) = post req"
  shows "process_collections uuid4' post scrape pd today' cs k' =
         map (\<lambda>(path, f). (path, f\<lparr>date_extracted := today'\<rparr>))
           (process_collections uuid4 post scrape pd today cs k)"
proof (induction cs arbitrary: k k')
  case Nil
  then show ?case by simp
next
  case (Cons c cs)
  show ?case
  proof (cases "scrape (col_url c) = []")
    case True
    then show ?thesis using Cons.IH by simp
  next
    case False
    obtain e k1 where e: "enrich_models_by_id uuid4 post pd (scrape (col_url c)) k = (e, k1)"
      by (cases "enrich_models_by_id uuid4 post pd (scrape (col_url c)) k")
    obtain e' k1' where e': "enrich_models_by_id uuid4' post pd (scrape (col_url c)) k' = (e', k1')"
      by (cases "enrich_models_by_id uuid4' post pd (scrape (col_url c)) k'")
    have "fst (enrich_models_by_id uuid4 post pd (scrape (col_url c)) k)
          = fst (enrich_models_by_id uuid4' post pd (scrape (col_url c)) k')"
      by (simp add: enrich_models_by_id_resolutions
            resolutions_by_id_uuid [OF assms, of uuid4 _ k uuid4' k'])
    then have "e = e'" using e e' by simp
    then show ?thesis using False e e' Cons.IH [of k1' k1] by simp
  qed
qed

section \<open>The claims\<close>

text \<open>
  C7. In every output file the pipeline writes, the popular-models file and the file of
  each scraped collection, the field \<open>total_models\<close> is the length of the list \<open>models\<close>.
\<close>

theorem total_models_is_length:
  "\<forall>(path, f) \<in> set (main uuid4 post scrape pd today). total_models f = length (models f)"
proof -
  obtain popular k where p: "enrich_models_by_name uuid4 post pd POPULAR_MODELS 0 = (popular, k)"
    by (cases "enrich_models_by_name uuid4 post pd POPULAR_MODELS 0")
  show ?thesis
    using process_collections_total [of _ _ uuid4 post scrape pd today SCRAPE_COLLECTIONS k]
    by (auto simp: main_def p)
qed

theorem total_models_is_length_witness:
  "total_models (snd (main uuid_a sample_post sample_scrape sample_pricing ''2026-01-01'' ! 1))
     = length (models (snd (main uuid_a sample_post sample_scrape sample_pricing ''2026-01-01'' ! 1)))
   \<and> length (models (snd (main uuid_a sample_post sample_scrape sample_pricing ''2026-01-01'' ! 1))) = 2
   \<and> length (main uuid_a sample_post sample_scrape sample_pricing ''2026-01-01'') = 2"
proof -
  let ?out = "main uuid_a sample_post sample_scrape sample_pricing ''2026-01-01''"
  have n: "length ?out = 2"
    by code_simp
  have one: "length (models (snd (?out ! 1))) = 2"
    by code_simp
  have "?out ! 1 \<in> set ?out"
    using n by simp
  then have "total_models (snd (?out ! 1)) = length (models (snd (?out ! 1)))"
    using total_models_is_length [of uuid_a sample_post sample_scrape sample_pricing "''2026-01-01''"]
    by (auto simp: case_prod_unfold)
  then show ?thesis using n one by simp
qed

text \<open>
  C3. \<open>search_model_details\<close> returns a resolved model if and only if no exception occurs
  in the search and some result, over all search terms, was given a score of at least
  40. When every score is below 40, or a request or the reading of a response raises,
  it returns nothing: the exception is a value of the model, not propagated.
\<close>

theorem resolves_iff_score_40:
  "fst (search_model_details uuid4 post k model_name creator limit_arg) \<noteq> None \<longleftrightarrow>
     Exc \<notin> set (search_events uuid4 post k model_name creator limit_arg)
     \<and> (\<exists>r s. Scored r s \<in> set (search_events uuid4 post k model_name creator limit_arg)
                \<and> 40 \<le> s)"
proof -
  let ?ex = "search_events uuid4 post k model_name creator limit_arg"
  have att: "0 < max_score (scored ?ex) \<Longrightarrow> highest_scoring (scored ?ex) \<noteq> None"
    by (rule highest_scoring_attained)
  have "40 \<le> max_score (scored ?ex) \<longleftrightarrow> (\<exists>r s. Scored r s \<in> set ?ex \<and> 40 \<le> s)"
    by (simp add: max_score_events)
  then show ?thesis
    using att by (auto simp: search_model_details_steps Let_def)
qed

theorem resolves_iff_score_40_witness:
  "fst (search_model_details uuid_a sample_post 0 ''Imagen 4 Fast'' (Some ''Google'') 20) \<noteq> None
   \<and> search_events uuid_a sample_post 0 ''Imagen 4 Fast'' (Some ''Google'') 20
       = [Posted, Scored imagen_4 90, Scored imagen_4_fast 110]
   \<and> fst (search_model_details uuid_a sample_post 3 ''Midjourney V7'' (Some ''Midjourney'') 20) = None
   \<and> search_events uuid_a sample_post 3 ''Midjourney V7'' (Some ''Midjourney'') 20 = [Posted, Exc]
   \<and> fst (search_model_details uuid_a sample_post 5 ''Nano Banana Pro'' (Some ''Google'') 20) = None
   \<and> search_events uuid_a sample_post 5 ''Nano Banana Pro'' (Some ''Google'') 20
       = [Posted, Scored imagen_4 0]"
proof -
  have a: "search_events uuid_a sample_post 0 ''Imagen 4 Fast'' (Some ''Google'') 20
       = [Posted, Scored imagen_4 90, Scored imagen_4_fast 110]"
    by code_simp
  have b: "search_events uuid_a sample_post 3 ''Midjourney V7'' (Some ''Midjourney'') 20 = [Posted, Exc]"
    by code_simp
  have c: "search_events uuid_a sample_post 5 ''Nano Banana Pro'' (Some ''Google'') 20
       = [Posted, Scored imagen_4 0]"
    by code_simp
  have "\<exists>r s. Scored r s \<in> set [Posted, Scored imagen_4 90, Scored imagen_4_fast 110] \<and> 40 \<le> s"
    by (rule exI [of _ imagen_4], rule exI [of _ 90]) simp
  then show ?thesis
    using resolves_iff_score_40 [of uuid_a sample_post 0 "''Imagen 4 Fast''" "Some ''Google''" 20]
      resolves_iff_score_40 [of uuid_a sample_post 3 "''Midjourney V7''" "Some ''Midjourney''" 20]
      resolves_iff_score_40 [of uuid_a sample_post 5 "''Nano Banana Pro''" "Some ''Google''" 20]
    by (simp add: a b c)
qed

text \<open>
  C4. The resolver keeps the one highest-scoring result over all search terms and all
  returned results (the first of them when several share the highest score) and returns
  at once when a result scores at least 100: such a result is the last step of the
  search and is what the search returns, and no request is sent after it. In
  particular, when the endpoint answers the search for "Imagen 4 Fast" with the results
  "Imagen 4 Fast" and "Imagen 4", in either order, the exact match (score 100) is
  selected and not the partial match (score 80).
\<close>

theorem tracks_highest_scoring:
  "search_model_details uuid4 post k model_name creator limit_arg =
     (let ex = search_events uuid4 post k model_name creator limit_arg; scs = scored ex
      in (if Exc \<in> set ex \<or> max_score scs < 40 then None
          else map_option make_match (highest_scoring scs),
          k + posts ex))
   \<and> (\<forall>r s. Scored r s \<in> set (search_events uuid4 post k model_name creator limit_arg)
              \<and> 100 \<le> s \<longrightarrow>
         last (search_events uuid4 post k model_name creator limit_arg) = Scored r s
         \<and> fst (search_model_details uuid4 post k model_name creator limit_arg)
             = Some (make_match r))
   \<and> ((\<forall>req. post req = Response 200 (Results [e, p])
              \<or> post req = Response 200 (Results [p, e]))
        \<and> c_name e = Some (JStr ''Imagen 4 Fast'') \<and> c_name p = Some (JStr ''Imagen 4'') \<longrightarrow>
         fst (search_model_details uuid4 post k ''Imagen 4 Fast'' creator limit_arg)
           = Some (make_match e)
         \<and> score_result ''Imagen 4 Fast'' ''Imagen 4 Fast'' None e = Some 100
         \<and> score_result ''Imagen 4 Fast'' ''Imagen 4 Fast'' None p = Some 80)"
proof (intro conjI allI impI)
  show "search_model_details uuid4 post k model_name creator limit_arg =
     (let ex = search_events uuid4 post k model_name creator limit_arg; scs = scored ex
      in (if Exc \<in> set ex \<or> max_score scs < 40 then None
          else map_option make_match (highest_scoring scs),
          k + posts ex))"
    by (rule search_model_details_steps)
next
  fix r s
  assume a: "Scored r s \<in> set (search_events uuid4 post k model_name creator limit_arg)
             \<and> 100 \<le> s"
  then have p: "last (search_events uuid4 post k model_name creator limit_arg) = Scored r s
      \<and> Exc \<notin> set (search_events uuid4 post k model_name creator limit_arg)
      \<and> max_score (scored (search_events uuid4 post k model_name creator limit_arg)) = s
      \<and> highest_scoring (scored (search_events uuid4 post k model_name creator limit_arg))
          = Some r"
    unfolding search_events_def by (intro executed_perfect) simp_all
  from p show "last (search_events uuid4 post k model_name creator limit_arg) = Scored r s"
    by simp
  from p a show "fst (search_model_details uuid4 post k model_name creator limit_arg)
         = Some (make_match r)"
    by (simp add: search_model_details_steps Let_def)
next
  assume a: "(\<forall>req. post req = Response 200 (Results [e, p])
              \<or> post req = Response 200 (Results [p, e]))
        \<and> c_name e = Some (JStr ''Imagen 4 Fast'') \<and> c_name p = Some (JStr ''Imagen 4'')"
  then show "fst (search_model_details uuid4 post k ''Imagen 4 Fast'' creator limit_arg)
           = Some (make_match e)"
    using imagen_selected [of post e p uuid4 k creator limit_arg] by simp
  from a show "score_result ''Imagen 4 Fast'' ''Imagen 4 Fast'' None e = Some 100"
    by (simp add: score_result_def result_name_def creator_given_def imagen_exact)
  from a show "score_result ''Imagen 4 Fast'' ''Imagen 4 Fast'' None p = Some 80"
    by (simp add: score_result_def result_name_def creator_given_def imagen_partial)
qed

theorem tracks_highest_scoring_witness:
  "fst (search_model_details uuid_a exact_first 0 ''Imagen 4 Fast'' (Some ''Google'') 20)
     = Some (make_match imagen_4_fast)
   \<and> fst (search_model_details uuid_a exact_last 0 ''Imagen 4 Fast'' (Some ''Google'') 20)
     = Some (make_match imagen_4_fast)
   \<and> search_events uuid_a exact_first 0 ''Imagen 4 Fast'' (Some ''Google'') 20
     = [Posted, Scored imagen_4_fast 110]
   \<and> search_events uuid_a exact_last 0 ''Imagen 4 Fast'' (Some ''Google'') 20
     = [Posted, Scored imagen_4 90, Scored imagen_4_fast 110]
   \<and> snd (search_model_details uuid_a exact_last 0 ''Imagen 4 Fast'' (Some ''Google'') 20) = 1"
proof -
  have first: "\<forall>req. exact_first req = Response 200 (Results [imagen_4_fast, imagen_4])
                   \<or> exact_first req = Response 200 (Results [imagen_4, imagen_4_fast])"
    by (simp add: exact_first_def)
  have last: "\<forall>req. exact_last req = Response 200 (Results [imagen_4_fast, imagen_4])
                   \<or> exact_last req = Response 200 (Results [imagen_4, imagen_4_fast])"
    by (simp add: exact_last_def)
  have e: "c_name imagen_4_fast = Some (JStr ''Imagen 4 Fast'')"
    by (simp add: imagen_4_fast_def)
  have p: "c_name imagen_4 = Some (JStr ''Imagen 4'')"
    by (simp add: imagen_4_def)
  have a: "search_events uuid_a exact_first 0 ''Imagen 4 Fast'' (Some ''Google'') 20
     = [Posted, Scored imagen_4_fast 110]"
    by code_simp
  have b: "search_events uuid_a exact_last 0 ''Imagen 4 Fast'' (Some ''Google'') 20
     = [Posted, Scored imagen_4 90, Scored imagen_4_fast 110]"
    by code_simp
  have c: "snd (search_model_details uuid_a exact_last 0 ''Imagen 4 Fast'' (Some ''Google'') 20) = 1"
    by code_simp
  show ?thesis
    using first last e p
      tracks_highest_scoring [of uuid_a exact_first 0 "''Imagen 4 Fast''" "Some ''Google''" 20
        imagen_4_fast imagen_4, THEN conjunct2, THEN conjunct2]
      tracks_highest_scoring [of uuid_a exact_last 0 "''Imagen 4 Fast''" "Some ''Google''" 20
        imagen_4_fast imagen_4, THEN conjunct2, THEN conjunct2]
    by (simp add: a b c)
qed

text \<open>
  C2, as amended. For a result whose name is a string (or is missing, which counts as the
  empty name) and every search variant, the score is: 100 if the name is, without regard
  to case, the original name or the variant; else 80 if one of name and variant is a
  substring of the other; else 20 times the number of words the original name and the
  name share, split at white space and at hyphens; plus 10 when a creator hint is
  supplied, appears in the serialized result and the score so far is positive. A result
  whose name is present and not a string has no score: scoring it raises.
\<close>

theorem score_with_guarded_bonus:
  "(c_name result = Some (JStr nm) \<longrightarrow>
      score_result model_name search_term creator result =
        Some (matching_score model_name search_term nm
              + (if 0 < matching_score model_name search_term nm
                    \<and> creator_appears creator (c_str result)
                 then 10 else 0)))
   \<and> (c_name result = None \<longrightarrow>
      score_result model_name search_term creator result =
        Some (matching_score model_name search_term []
              + (if 0 < matching_score model_name search_term []
                    \<and> creator_appears creator (c_str result)
                 then 10 else 0)))
   \<and> (c_name result \<noteq> None \<and> (\<forall>s. c_name result \<noteq> Some (JStr s)) \<longrightarrow>
      score_result model_name search_term creator result = None)"
  using score_result_str [of result nm model_name search_term creator]
    score_result_missing [of result model_name search_term creator]
    score_result_raises [of result model_name search_term creator]
  by blast

text \<open>
  The amended statement at work: the exact match with the creator's name in it scores
  110, the partial match 90, a result without the creator its 100 alone, a result
  without a name 80 and the bonus (the empty name is a substring of every variant), and
  a result with a null name raises.
\<close>

theorem score_with_guarded_bonus_witness:
  "score_result ''Imagen 4 Fast'' ''Imagen 4 Fast'' (Some ''Google'') imagen_4_fast = Some 110
   \<and> score_result ''Imagen 4 Fast'' ''Imagen 4 Fast'' (Some ''Google'') imagen_4 = Some 90
   \<and> score_result ''Object Eraser'' ''Object Eraser'' (Some ''Google'') eraser = Some 100
   \<and> score_result ''seedream-4-5'' ''seedream-4-5'' (Some ''ByteDance'') nameless = Some 90
   \<and> score_result ''Imagen 4 Fast'' ''Imagen 4 Fast'' (Some ''Google'') null_named = None"
proof -
  have names: "c_name imagen_4_fast = Some (JStr ''Imagen 4 Fast'')"
    "c_name imagen_4 = Some (JStr ''Imagen 4'')"
    "c_name eraser = Some (JStr ''Object Eraser'')"
    "c_name nameless = None"
    "c_name null_named \<noteq> None \<and> (\<forall>s. c_name null_named \<noteq> Some (JStr s))"
    by (simp_all add: imagen_4_fast_def imagen_4_def eraser_def nameless_def null_named_def)
  have scores:
    "matching_score ''Imagen 4 Fast'' ''Imagen 4 Fast'' ''Imagen 4 Fast'' = 100"
    "matching_score ''Imagen 4 Fast'' ''Imagen 4 Fast'' ''Imagen 4'' = 80"
    "matching_score ''Object Eraser'' ''Object Eraser'' ''Object Eraser'' = 100"
    "matching_score ''seedream-4-5'' ''seedream-4-5'' [] = 80"
    "creator_appears (Some ''Google'') (c_str imagen_4_fast)"
    "creator_appears (Some ''Google'') (c_str imagen_4)"
    "\<not> creator_appears (Some ''Google'') (c_str eraser)"
    "creator_appears (Some ''ByteDance'') (c_str nameless)"
    by code_simp+
  show ?thesis
    using names
      score_with_guarded_bonus [of imagen_4_fast "''Imagen 4 Fast''" "''Imagen 4 Fast''"
        "''Imagen 4 Fast''" "Some ''Google''"]
      score_with_guarded_bonus [of imagen_4 "''Imagen 4''" "''Imagen 4 Fast''"
        "''Imagen 4 Fast''" "Some ''Google''"]
      score_with_guarded_bonus [of eraser "''Object Eraser''" "''Object Eraser''"
        "''Object Eraser''" "Some ''Google''"]
      score_with_guarded_bonus [of nameless "[]" "''seedream-4-5''"
        "''seedream-4-5''" "Some ''ByteDance''"]
      score_with_guarded_bonus [of null_named "[]" "''Imagen 4 Fast''"
        "''Imagen 4 Fast''" "Some ''Google''"]
    by (simp add: scores)
qed

text \<open>
  C2 as it was stated adds the 10 points whenever the creator appears. The search for
  "Nano Banana Pro" of Google with the result "Imagen 4" of Google shows the difference:
  the names share nothing, the creator appears, the stated score is 10 and the code's
  score is 0.
\<close>

theorem score_stated_bonus_counterexample:
  "score_result ''Nano Banana Pro'' ''Nano Banana Pro'' (Some ''Google'') imagen_4 = Some 0
   \<and> c_name imagen_4 = Some (JStr ''Imagen 4'')
   \<and> stated_score ''Nano Banana Pro'' ''Nano Banana Pro'' (Some ''Google'') ''Imagen 4''
        (c_str imagen_4) = 10"
  by code_simp

text \<open>
  C9. A result that matches the searched name in nothing (its name is neither the
  original name nor the variant, is no substring of the variant and contains it not, and
  shares no word with the original name) has the score 0 whatever the creator hint is,
  and scoring it leaves the best match and the best score as they were: the bonus of 10
  is added to positive scores only, so a result that matches by its creator alone is
  never selected.
\<close>

theorem creator_alone_never_scores:
  assumes "c_name result = Some (JStr nm)"
    and "lower nm \<noteq> lower model_name"
    and "lower nm \<noteq> lower search_term"
    and "\<not> sublist (lower search_term) (lower nm)"
    and "\<not> sublist (lower nm) (lower search_term)"
    and "hyphen_words (lower model_name) \<inter> hyphen_words (lower nm) = {}"
  shows "score_result model_name search_term creator result = Some 0
    \<and> score_results model_name search_term creator (result # rest) best best_score
        = score_results model_name search_term creator rest best best_score"
proof -
  have "matching_score model_name search_term nm = 0"
    using assms by (simp add: matching_score_def)
  then have "score_result model_name search_term creator result = Some 0"
    using assms(1) by (simp add: score_result_str)
  then show ?thesis by simp
qed

theorem creator_alone_never_scores_witness:
  "score_result ''Nano Banana Pro'' ''Nano Banana Pro'' (Some ''Google'') imagen_4 = Some 0
   \<and> creator_appears (Some ''Google'') (c_str imagen_4)
   \<and> score_results ''Nano Banana Pro'' ''Nano Banana Pro'' (Some ''Google'')
        [imagen_4] None 0 = Finished None 0
   \<and> fst (search_model_details uuid_a sample_post 0 ''Nano Banana Pro'' (Some ''Google'') 20)
       = None"
proof -
  have hyps: "c_name imagen_4 = Some (JStr ''Imagen 4'')"
    "lower ''Imagen 4'' \<noteq> lower ''Nano Banana Pro''"
    "\<not> sublist (lower ''Nano Banana Pro'') (lower ''Imagen 4'')"
    "\<not> sublist (lower ''Imagen 4'') (lower ''Nano Banana Pro'')"
    "hyphen_words (lower ''Nano Banana Pro'') \<inter> hyphen_words (lower ''Imagen 4'') = {}"
    by code_simp+
  have others: "creator_appears (Some ''Google'') (c_str imagen_4)"
    "fst (search_model_details uuid_a sample_post 0 ''Nano Banana Pro'' (Some ''Google'') 20)
       = None"
    by code_simp+
  show ?thesis
    using creator_alone_never_scores [of imagen_4 "''Imagen 4''" "''Nano Banana Pro''"
        "''Nano Banana Pro''" "Some ''Google''" "[]" None 0, OF hyps(1) hyps(2) hyps(2) hyps(3)
        hyps(4) hyps(5)]
      others
    by simp
qed

text \<open>
  C5. When neither the normalized name nor any of its variants is a key of the pricing
  map, \<open>match_pricing\<close> returns a stored record only if the normalized name and the
  record's key contain one another as substrings in at least one direction and the
  words they share are at least 60% of the smaller name's word count; it returns
  nothing exactly when no stored key is such.
\<close>

theorem partial_match_criterion:
  assumes "name_lower = strip (lower model_name)"
    and "\<forall>v \<in> set (name_lower # variations name_lower). v \<notin> fst ` set pd"
  shows "(\<forall>r. match_pricing pd model_name = Some r \<longrightarrow>
            (\<exists>k. (k, r) \<in> set pd \<and> contain_one_another name_lower k
                  \<and> share_sixty_percent name_lower k))
     \<and> (match_pricing pd model_name = None \<longleftrightarrow>
          (\<forall>(k, r) \<in> set pd. \<not> (contain_one_another name_lower k
                                  \<and> share_sixty_percent name_lower k)))"
proof -
  have "match_pricing pd model_name = partial_match name_lower pd"
    using assms by (simp add: match_pricing_falls_through)
  then show ?thesis
    using partial_match_Some [of name_lower pd] partial_match_None [of name_lower pd]
    by simp
qed

theorem partial_match_criterion_witness:
  "match_pricing sample_pricing ''Imagen 4''
     = Some \<lparr>price_usd = JNum (3 / 100), configuration = JNull, discount = JNull\<rparr>
   \<and> (\<exists>k. (k, \<lparr>price_usd = JNum (3 / 100), configuration = JNull, discount = JNull\<rparr>)
              \<in> set sample_pricing
            \<and> contain_one_another ''imagen 4'' k \<and> share_sixty_percent ''imagen 4'' k)
   \<and> match_pricing sample_pricing ''gen 4 fa'' = None
   \<and> contain_one_another ''gen 4 fa'' ''imagen 4 fast''
   \<and> \<not> share_sixty_percent ''gen 4 fa'' ''imagen 4 fast''"
proof -
  have n1: "''imagen 4'' = strip (lower ''Imagen 4'')"
    and n2: "''gen 4 fa'' = strip (lower ''gen 4 fa'')"
    by code_simp+
  have f1: "\<forall>v \<in> set (''imagen 4'' # variations ''imagen 4''). v \<notin> fst ` set sample_pricing"
    and f2: "\<forall>v \<in> set (''gen 4 fa'' # variations ''gen 4 fa''). v \<notin> fst ` set sample_pricing"
    by code_simp+
  have m1: "match_pricing sample_pricing ''Imagen 4''
     = Some \<lparr>price_usd = JNum (3 / 100), configuration = JNull, discount = JNull\<rparr>"
    and m2: "match_pricing sample_pricing ''gen 4 fa'' = None"
    by code_simp+
  have c: "contain_one_another ''gen 4 fa'' ''imagen 4 fast''"
    by code_simp
  have first: "(''imagen 4 fast'',
       \<lparr>price_usd = JNum (3 / 100), configuration = JNull, discount = JNull\<rparr>)
     \<in> set sample_pricing"
    by (simp add: sample_pricing_def)
  from partial_match_criterion [OF n1 f1] m1
  have ex: "\<exists>k. (k, \<lparr>price_usd = JNum (3 / 100), configuration = JNull, discount = JNull\<rparr>)
              \<in> set sample_pricing
            \<and> contain_one_another ''imagen 4'' k \<and> share_sixty_percent ''imagen 4'' k"
    by simp
  from partial_match_criterion [OF n2 f2] m2
  have "\<forall>(k, r) \<in> set sample_pricing.
          \<not> (contain_one_another ''gen 4 fa'' k \<and> share_sixty_percent ''gen 4 fa'' k)"
    by simp
  with first have "\<not> (contain_one_another ''gen 4 fa'' ''imagen 4 fast''
                      \<and> share_sixty_percent ''gen 4 fa'' ''imagen 4 fast'')"
    by blast
  with c have "\<not> share_sixty_percent ''gen 4 fa'' ''imagen 4 fast''"
    by simp
  with m1 m2 c ex show ?thesis by simp
qed

text \<open>
  C6. When the price table loads, \<open>match_pricing\<close> with the stored name of any of its
  entries (the normalized name, or the name as the file has it) returns the record of
  the last entry of the table with that normalized name: that entry's own record,
  unless a later entry with the same normalized name has overwritten it.
\<close>

theorem load_then_lookup:
  assumes "load_pricing_data (Some table) = Some pd"
    and "table = before @ entry # after"
    and "entry_key entry = Some key"
  shows "match_pricing pd key
           = Some (entry_data (last (filter (\<lambda>e. entry_key e = Some key) table)))
     \<and> (\<forall>s. pe_name entry = Some (JStr s) \<longrightarrow> match_pricing pd s = match_pricing pd key)
     \<and> ((\<forall>e \<in> set after. entry_key e \<noteq> Some key) \<longrightarrow>
          match_pricing pd key = Some (entry_data entry))"
proof -
  let ?same = "filter (\<lambda>e. entry_key e = Some key) table"
  have ne: "?same \<noteq> []"
    using assms(2,3) by simp
  have "load_models table [] = Some pd"
    using assms(1) by (simp add: load_pricing_data_def)
  from load_models_lookup [OF this, of key] ne
  have look: "map_of pd key = Some (entry_data (last ?same))"
    by (cases ?same) simp_all
  have norm: "strip (lower key) = key"
    using assms(3) by (rule entry_key_normal)
  have one: "match_pricing pd key = Some (entry_data (last ?same))"
    using look norm by (simp add: match_pricing_exact)
  have two: "match_pricing pd s = match_pricing pd key" if "pe_name entry = Some (JStr s)" for s
  proof -
    from that assms(3) have "strip (lower s) = key"
      by (simp add: entry_key_def)
    then show ?thesis using look one by (simp add: match_pricing_exact)
  qed
  have three: "match_pricing pd key = Some (entry_data entry)"
    if "\<forall>e \<in> set after. entry_key e \<noteq> Some key"
  proof -
    from that have "filter (\<lambda>e. entry_key e = Some key) after = []"
      by (simp add: filter_empty_conv)
    then have "last ?same = entry"
      using assms(2,3) by simp
    then show ?thesis using one by simp
  qed
  show ?thesis using one two three by blast
qed


theorem load_then_lookup_witness:
  "load_pricing_data (Some sample_prices) = Some sample_pricing
   \<and> match_pricing sample_pricing ''imagen 4 fast''
       = Some \<lparr>price_usd = JNum (3 / 100), configuration = JNull, discount = JNull\<rparr>
   \<and> match_pricing sample_pricing '' imagen 4 fast'' = match_pricing sample_pricing ''imagen 4 fast''
   \<and> match_pricing sample_pricing ''Imagen 4 Fast'' = match_pricing sample_pricing ''imagen 4 fast''
   \<and> entry_data (sample_prices ! 2)
       = \<lparr>price_usd = JNum (3 / 100), configuration = JNull, discount = JNull\<rparr>"
proof -
  let ?e0 = "\<lparr>pe_name = Some (JStr ''Imagen 4 Fast''), pe_price_usd = JNum (2 / 100),
       pe_configuration = JStr ''1024x1024'', pe_discount = JNull\<rparr>"
  let ?e1 = "\<lparr>pe_name = Some (JStr ''FLUX.2 dev''), pe_price_usd = JNum (12 / 1000),
       pe_configuration = JNull, pe_discount = JStr ''-20%''\<rparr>"
  let ?e2 = "\<lparr>pe_name = Some (JStr '' imagen 4 fast''), pe_price_usd = JNum (3 / 100),
       pe_configuration = JNull, pe_discount = JNull\<rparr>"
  let ?e3 = "\<lparr>pe_name = Some (JStr ''imagen-4-fast''), pe_price_usd = JNum 9,
       pe_configuration = JNull, pe_discount = JNull\<rparr>"
  let ?e4 = "\<lparr>pe_name = Some (JStr ''Seedream 4 5''), pe_price_usd = JNum (4 / 100),
       pe_configuration = JStr ''2048x2048'', pe_discount = JNum 0\<rparr>"
  have loaded: "load_pricing_data (Some sample_prices) = Some sample_pricing"
    by code_simp
  have at2: "sample_prices = [?e0, ?e1] @ ?e2 # [?e3, ?e4]"
    by (simp add: sample_prices_def)
  have at0: "sample_prices = [] @ ?e0 # [?e1, ?e2, ?e3, ?e4]"
    by (simp add: sample_prices_def)
  have key2: "entry_key ?e2 = Some ''imagen 4 fast''"
    by code_simp
  have key0: "entry_key ?e0 = Some ''imagen 4 fast''"
    by code_simp
  have later: "\<forall>e \<in> set [?e3, ?e4]. entry_key e \<noteq> Some ''imagen 4 fast''"
    by code_simp
  have data: "entry_data (sample_prices ! 2)
       = \<lparr>price_usd = JNum (3 / 100), configuration = JNull, discount = JNull\<rparr>"
    "entry_data ?e2 = \<lparr>price_usd = JNum (3 / 100), configuration = JNull, discount = JNull\<rparr>"
    by code_simp+
  show ?thesis
    using load_then_lookup [OF loaded at2 key2] load_then_lookup [OF loaded at0 key0] later
    by (simp add: loaded data)
qed

text \<open>
  C1. An entry whose resolution fails is left out of the written list, and no record
  with a null \<open>air\<close> is to appear in an output file: the enrichment loops say so
  themselves (\<open># Skip models without AIR\<close>, \<open>Skipped (no AIR)\<close>). They test
  \<open>if api_data:\<close>, though, and not the identifier. In the sample run the endpoint
  answers the search for "Object Eraser" with a result of that name that has no \<open>air\<close>:
  the result scores 100, the entry resolves to it with \<open>air\<close> null, and its record is
  written to the popular-models file with a null \<open>air\<close>.
\<close>

theorem null_air_record_written:
  "score_result ''Object Eraser'' ''Object Eraser'' None eraser = Some 100
   \<and> c_air eraser = JNull
   \<and> (\<lparr>cu_name = ''Object Eraser'', cu_creator = None\<rparr>, Some (make_match eraser))
       \<in> set (resolutions_by_name uuid_a sample_post POPULAR_MODELS 0)
   \<and> bm_air (make_match eraser) = JNull
   \<and> fst (hd (main uuid_a sample_post sample_scrape sample_pricing ''2026-01-01''))
       = ''popular_models.json''
   \<and> map em_name (models (snd (hd (main uuid_a sample_post sample_scrape sample_pricing
        ''2026-01-01'')))) = [''Object Eraser'', ''Imagen 4 Fast'']
   \<and> map em_air (models (snd (hd (main uuid_a sample_post sample_scrape sample_pricing
        ''2026-01-01'')))) = [JNull, JStr ''google:2@3'']"
  by code_simp

text \<open>
  C10. Every scraped entry that resolves has its record in the written list, with the
  entry's model identifier; the record's \<open>name\<close> is the name of the result the entry
  resolved to when that name is not empty, and the scraped display name otherwise
  (also when the result has no name); the price keys of the record are those of the
  pricing match of that same name, not of the model identifier.
\<close>

theorem scraped_record_name_and_price:
  assumes "(m, Some b) \<in> set (resolutions_by_id uuid4 post scraped_list k)"
  shows "\<exists>rec \<in> set (fst (enrich_models_by_id uuid4 post pd scraped_list k)).
           em_model_id rec = Some (sc_model_id m)
         \<and> em_name rec =
             (case bm_name b of None \<Rightarrow> sc_name m
              | Some s \<Rightarrow> if s = [] then sc_name m else s)
         \<and> em_price_usd rec = map_option price_usd (match_pricing pd (em_name rec))
         \<and> em_price_configuration rec =
             (case match_pricing pd (em_name rec) of
                None \<Rightarrow> None
              | Some p \<Rightarrow> if truthy (configuration p) then Some (configuration p) else None)
         \<and> em_price_discount rec =
             (case match_pricing pd (em_name rec) of
                None \<Rightarrow> None
              | Some p \<Rightarrow> if truthy (discount p) then Some (discount p) else None)"
proof -
  have "enriched_by_id pd m b \<in> set (fst (enrich_models_by_id uuid4 post pd scraped_list k))"
    using assms by (force simp: enrich_models_by_id_resolutions map_filter_mem)
  moreover have "em_name (enriched_by_id pd m b) = name_or (bm_name b) (sc_name m)"
    by (simp add: enriched_by_id_def Let_def add_pricing_def split: option.splits)
  moreover have "em_model_id (enriched_by_id pd m b) = Some (sc_model_id m)"
    by (simp add: enriched_by_id_def Let_def add_pricing_def split: option.splits)
  moreover have "name_or (bm_name b) (sc_name m) =
             (case bm_name b of None \<Rightarrow> sc_name m
              | Some s \<Rightarrow> if s = [] then sc_name m else s)"
    by (simp add: name_or_def split: option.splits)
  moreover have "em_price_usd (enriched_by_id pd m b)
      = map_option price_usd (match_pricing pd (name_or (bm_name b) (sc_name m)))"
    by (simp add: enriched_by_id_def Let_def add_pricing_def split: option.splits)
  moreover have "em_price_configuration (enriched_by_id pd m b) =
             (case match_pricing pd (name_or (bm_name b) (sc_name m)) of
                None \<Rightarrow> None
              | Some p \<Rightarrow> if truthy (configuration p) then Some (configuration p) else None)"
    by (simp add: enriched_by_id_def Let_def add_pricing_def split: option.splits)
  moreover have "em_price_discount (enriched_by_id pd m b) =
             (case match_pricing pd (name_or (bm_name b) (sc_name m)) of
                None \<Rightarrow> None
              | Some p \<Rightarrow> if truthy (discount p) then Some (discount p) else None)"
    by (simp add: enriched_by_id_def Let_def add_pricing_def split: option.splits)
  ultimately show ?thesis
    by (intro bexI [of _ "enriched_by_id pd m b"]) simp_all
qed

text \<open>
  In the sample run the first scraped entry takes the result's name and its price,
  though the price table has a different record under the entry's identifier; the
  second resolves by its identifier to a result without a name and keeps the scraped
  name, by which its price is found.
\<close>

theorem scraped_record_name_and_price_witness:
  "(\<exists>rec \<in> set (fst (enrich_models_by_id uuid_a sample_post sample_pricing (sample_scrape []) 0)).
      em_model_id rec = Some ''imagen-4-fast'' \<and> em_name rec = ''Imagen 4 Fast''
      \<and> em_price_usd rec = Some (JNum (3 / 100)) \<and> em_price_configuration rec = None
      \<and> em_price_discount rec = None)
   \<and> (\<exists>rec \<in> set (fst (enrich_models_by_id uuid_a sample_post sample_pricing (sample_scrape []) 0)).
      em_model_id rec = Some ''seedream-4-5'' \<and> em_name rec = ''Seedream 4 5''
      \<and> em_price_usd rec = Some (JNum (4 / 100))
      \<and> em_price_configuration rec = Some (JStr ''2048x2048'')
      \<and> em_price_discount rec = None)
   \<and> match_pricing sample_pricing ''imagen-4-fast''
       = Some \<lparr>price_usd = JNum 9, configuration = JNull, discount = JNull\<rparr>"
proof -
  let ?m1 = "\<lparr>sc_model_id = ''imagen-4-fast'', sc_name = ''Imagen 4 Fast''\<rparr>"
  let ?m2 = "\<lparr>sc_model_id = ''seedream-4-5'', sc_name = ''Seedream 4 5''\<rparr>"
  have r1: "(?m1, Some (make_match imagen_4_fast))
      \<in> set (resolutions_by_id uuid_a sample_post (sample_scrape []) 0)"
    and r2: "(?m2, Some (make_match nameless))
      \<in> set (resolutions_by_id uuid_a sample_post (sample_scrape []) 0)"
    by code_simp+
  have n: "bm_name (make_match imagen_4_fast) = Some ''Imagen 4 Fast''"
    "bm_name (make_match nameless) = None"
    by code_simp+
  have p: "match_pricing sample_pricing ''Imagen 4 Fast''
       = Some \<lparr>price_usd = JNum (3 / 100), configuration = JNull, discount = JNull\<rparr>"
    "match_pricing sample_pricing ''Seedream 4 5''
       = Some \<lparr>price_usd = JNum (4 / 100), configuration = JStr ''2048x2048'',
               discount = JNum 0\<rparr>"
    "match_pricing sample_pricing ''imagen-4-fast''
       = Some \<lparr>price_usd = JNum 9, configuration = JNull, discount = JNull\<rparr>"
    by code_simp+
  show ?thesis
    using scraped_record_name_and_price [OF r1, of sample_pricing]
      scraped_record_name_and_price [OF r2, of sample_pricing]
    by (simp add: n p cong: conj_cong)
qed

text \<open>
  C8. Two runs with the same pricing map, the same curated list, the same scraped pages
  and an endpoint that answers a request without regard to its task UUID write the same
  files, but for the field \<open>date_extracted\<close>: the UUIDs drawn for the requests have no
  influence on what is written. The files are compared as the documents handed to
  \<open>json.dump\<close>, which writes equal documents as equal bytes.
\<close>

theorem output_independent_of_uuids:
  assumes "\<forall>req u. post (req\<lparr>taskUUID := u\<rparr>) = post req"
  shows "main uuid4' post scrape pd today' =
         map (\<lambda>(path, f). (path, f\<lparr>date_extracted := today'\<rparr>))
           (main uuid4 post scrape pd today)"
proof -
  obtain e k where e: "enrich_models_by_name uuid4 post pd POPULAR_MODELS 0 = (e, k)"
    by (cases "enrich_models_by_name uuid4 post pd POPULAR_MODELS 0")
  obtain e' k' where e': "enrich_models_by_name uuid4' post pd POPULAR_MODELS 0 = (e', k')"
    by (cases "enrich_models_by_name uuid4' post pd POPULAR_MODELS 0")
  have "fst (enrich_models_by_name uuid4 post pd POPULAR_MODELS 0)
        = fst (enrich_models_by_name uuid4' post pd POPULAR_MODELS 0)"
    by (simp add: enrich_models_by_name_resolutions
          resolutions_by_name_uuid [OF assms, of uuid4 _ 0 uuid4' 0])
  then have "e = e'" using e e' by simp
  then show ?thesis
    using e e' process_collections_uuid [OF assms, of uuid4' scrape pd today' _ k' uuid4 today k]
    by (simp add: main_def)
qed

theorem output_independent_of_uuids_witness:
  "(\<forall>req u. sample_post (req\<lparr>taskUUID := u\<rparr>) = sample_post req)
   \<and> uuid_a 0 \<noteq> uuid_b 0
   \<and> main uuid_b sample_post sample_scrape sample_pricing ''2026-01-02'' =
       map (\<lambda>(path, f). (path, f\<lparr>date_extracted := ''2026-01-02''\<rparr>))
         (main uuid_a sample_post sample_scrape sample_pricing ''2026-01-01'')
   \<and> map (date_extracted \<circ> snd) (main uuid_a sample_post sample_scrape sample_pricing ''2026-01-01'')
       = [''2026-01-01'', ''2026-01-01'']"
proof -
  have stable: "\<forall>req u. sample_post (req\<lparr>taskUUID := u\<rparr>) = sample_post req"
    by (simp add: sample_post_def)
  have differ: "uuid_a 0 \<noteq> uuid_b 0"
    by code_simp
  have dates: "map (date_extracted \<circ> snd)
      (main uuid_a sample_post sample_scrape sample_pricing ''2026-01-01'')
       = [''2026-01-01'', ''2026-01-01'']"
    by code_simp
  show ?thesis
    using stable differ dates
      output_independent_of_uuids [OF stable, of uuid_b sample_scrape sample_pricing
        "''2026-01-02''" uuid_a "''2026-01-01''"]
    by simp
qed


end
